theory Spec2Isabelle
  imports
    Main
    "HOL-Library.AList"
    "HOL-Library.Sublist"
    "HOL-Library.List_Lexorder"
    "HOL-Library.Product_Lexorder"
begin

section \<open>minipip: the lightweight package installer of thonny\<close>

text \<open>
  A shallow embedding of \<^verbatim>\<open>thonny/plugins/micropython/minipip.py\<close>. Python strings and
  byte strings are \<open>string\<close> (a list of bytes); exceptions are values of the type
  \<open>error\<close>; every function that touches the network, the file system or a subprocess
  takes the world and returns its result together with the world it leaves behind, also
  when it raises.
\<close>

subsection \<open>Exceptions\<close>

datatype os_error = FileNotFoundError | FileExistsError | NotADirectoryError | IsADirectoryError

datatype error =
    UserError string
  | NotUpipCompatible
  | HTTPError nat
  | URLError
  | CalledProcessError nat
  | KeyError string
  | TypeError
  | AttributeError
  | NameError string
  | ValueError
  | ReadError
  | UnicodeDecodeError
  | RequirementParseError
  | OSError os_error
  | SystemExit nat

subsection \<open>Strings and byte strings\<close>

type_synonym bytes = string

definition startswith :: "string \<Rightarrow> string \<Rightarrow> bool" where
  "startswith s p = (take (length p) s = p)"

definition endswith :: "string \<Rightarrow> string \<Rightarrow> bool" where
  "endswith s p = (length p \<le> length s \<and> drop (length s - length p) s = p)"

text \<open>\<open>str_in p s\<close> is Python's \<^verbatim>\<open>p in s\<close> on strings: \<open>p\<close> occurs in \<open>s\<close> as a substring.\<close>

fun str_in :: "string \<Rightarrow> string \<Rightarrow> bool" where
  "str_in p [] = (p = [])"
| "str_in p (c # cs) = (startswith (c # cs) p \<or> str_in p cs)"

text \<open>
  \<^verbatim>\<open>name.split("/", maxsplit=1)\<close> when the name has a slash, and the pair
  \<^verbatim>\<open>(name, "")\<close> when it has none (lines 118 to 121).
\<close>

definition split_dist :: "string \<Rightarrow> string \<times> string" where
  "split_dist nm =
     (if CHR ''/'' \<in> set nm
      then (takeWhile (\<lambda>c. c \<noteq> CHR ''/'') nm, tl (dropWhile (\<lambda>c. c \<noteq> CHR ''/'') nm))
      else (nm, ''''))"

text \<open>Iterating a binary file yields its lines, each with its terminating line feed.\<close>

fun readlines :: "bytes \<Rightarrow> bytes list" where
  "readlines [] = []"
| "readlines (c # cs) =
     (if c = CHR 0x0A then [c] # readlines cs
      else (case readlines cs of [] \<Rightarrow> [[c]] | l # ls \<Rightarrow> (c # l) # ls))"

text \<open>\<^verbatim>\<open>bytes.strip()\<close> removes ASCII white space at both ends.\<close>

definition is_space :: "char \<Rightarrow> bool" where
  "is_space c = (c \<in> {CHR 0x20, CHR 0x09, CHR 0x0A, CHR 0x0D, CHR 0x0B, CHR 0x0C})"

definition strip :: "bytes \<Rightarrow> bytes" where
  "strip s = rev (dropWhile is_space (rev (dropWhile is_space s)))"

text \<open>
  \<^verbatim>\<open>bytes.decode()\<close> decodes UTF-8 strictly. A decoded string is represented by its UTF-8
  bytes, so decoding is the identity on well-formed input and raises on the rest.
\<close>

definition cont_byte :: "nat \<Rightarrow> bool" where
  "cont_byte b = (128 \<le> b \<and> b \<le> 191)"

fun utf8_valid :: "nat list \<Rightarrow> bool" where
  "utf8_valid [] = True"
| "utf8_valid [b] = (b < 128)"
| "utf8_valid [b, c1] = (if b < 128 then c1 < 128 else 194 \<le> b \<and> b \<le> 223 \<and> cont_byte c1)"
| "utf8_valid [b, c1, c2] =
     (if b < 128 then utf8_valid [c1, c2]
      else if 194 \<le> b \<and> b \<le> 223 then cont_byte c1 \<and> c2 < 128
      else if b = 224 then 160 \<le> c1 \<and> c1 \<le> 191 \<and> cont_byte c2
      else if b = 237 then 128 \<le> c1 \<and> c1 \<le> 159 \<and> cont_byte c2
      else 225 \<le> b \<and> b \<le> 239 \<and> cont_byte c1 \<and> cont_byte c2)"
| "utf8_valid (b # c1 # c2 # c3 # r) =
     (if b < 128 then utf8_valid (c1 # c2 # c3 # r)
      else if 194 \<le> b \<and> b \<le> 223 then cont_byte c1 \<and> utf8_valid (c2 # c3 # r)
      else if b = 224 then 160 \<le> c1 \<and> c1 \<le> 191 \<and> cont_byte c2 \<and> utf8_valid (c3 # r)
      else if b = 237 then 128 \<le> c1 \<and> c1 \<le> 159 \<and> cont_byte c2 \<and> utf8_valid (c3 # r)
      else if 225 \<le> b \<and> b \<le> 239 then cont_byte c1 \<and> cont_byte c2 \<and> utf8_valid (c3 # r)
      else if b = 240 then 144 \<le> c1 \<and> c1 \<le> 191 \<and> cont_byte c2 \<and> cont_byte c3 \<and> utf8_valid r
      else if b = 244 then 128 \<le> c1 \<and> c1 \<le> 143 \<and> cont_byte c2 \<and> cont_byte c3 \<and> utf8_valid r
      else 241 \<le> b \<and> b \<le> 243 \<and> cont_byte c1 \<and> cont_byte c2 \<and> cont_byte c3 \<and> utf8_valid r)"

definition decode :: "bytes \<Rightarrow> error + string" where
  "decode b = (if utf8_valid (map of_char b) then Inr b else Inl UnicodeDecodeError)"

subsection \<open>POSIX paths\<close>

text \<open>\<^verbatim>\<open>posixpath.join\<close> of two arguments.\<close>

definition os_path_join :: "string \<Rightarrow> string \<Rightarrow> string" where
  "os_path_join a b =
     (if startswith b ''/'' then b
      else if a = [] \<or> endswith a ''/'' then a @ b
      else a @ ''/'' @ b)"

text \<open>
  \<^verbatim>\<open>posixpath.dirname\<close>: everything up to the last slash, with trailing slashes removed
  unless nothing but slashes would remain.
\<close>

definition os_path_dirname :: "string \<Rightarrow> string" where
  "os_path_dirname p =
     (let hd_part = rev (dropWhile (\<lambda>c. c \<noteq> CHR ''/'') (rev p))
      in if hd_part \<noteq> [] \<and> (\<exists>c \<in> set hd_part. c \<noteq> CHR ''/'')
         then rev (dropWhile (\<lambda>c. c = CHR ''/'') (rev hd_part))
         else hd_part)"

text \<open>
  The file a path names: whether it is absolute, and the components that remain when
  empty and \<^verbatim>\<open>.\<close> components are dropped and \<^verbatim>\<open>..\<close> cancels the component before it, as
  \<^verbatim>\<open>posixpath.normpath\<close> does. Symbolic links are not part of the model.
\<close>

type_synonym path = "bool \<times> string list"

fun split_char :: "char \<Rightarrow> string \<Rightarrow> string list" where
  "split_char sep [] = [[]]"
| "split_char sep (c # cs) =
     (if c = sep then [] # split_char sep cs
      else (case split_char sep cs of [] \<Rightarrow> [[c]] | x # xs \<Rightarrow> (c # x) # xs))"

fun norm_comps :: "bool \<Rightarrow> string list \<Rightarrow> string list \<Rightarrow> string list" where
  "norm_comps ab acc [] = rev acc"
| "norm_comps ab acc (c # cs) =
     (if c = [] \<or> c = ''.'' then norm_comps ab acc cs
      else if c \<noteq> ''..'' \<or> (\<not> ab \<and> acc = []) \<or> (acc \<noteq> [] \<and> hd acc = ''..'')
        then norm_comps ab (c # acc) cs
      else norm_comps ab (tl acc) cs)"

definition normpath :: "string \<Rightarrow> path" where
  "normpath p = (startswith p ''/'', norm_comps (startswith p ''/'') [] (split_char CHR ''/'' p))"

subsection \<open>The file system\<close>

text \<open>
  The file system is a table from paths to nodes, in the order in which a directory
  listing reports them. The current directory and the root always exist.
\<close>

datatype node = Dir | File bytes

type_synonym filesystem = "(path \<times> node) list"

definition fs_get :: "filesystem \<Rightarrow> path \<Rightarrow> node option" where
  "fs_get fs p = (if snd p = [] then Some Dir else map_of fs p)"

definition parent :: "path \<Rightarrow> path" where
  "parent p = (fst p, butlast (snd p))"

definition under :: "path \<Rightarrow> path \<Rightarrow> bool" where
  "under p q = (fst q = fst p \<and> prefix (snd p) (snd q))"

text \<open>
  The directories that \<^verbatim>\<open>os.makedirs(name, exist_ok=True)\<close> walks through, outermost
  first: a missing one is created, a directory is kept, a file in the way raises.
\<close>

fun mkdirs :: "bool \<Rightarrow> string list \<Rightarrow> string list \<Rightarrow> filesystem \<Rightarrow> error + filesystem" where
  "mkdirs ab pre [] fs = Inr fs"
| "mkdirs ab pre (c # cs) fs =
     (case fs_get fs (ab, pre @ [c]) of
        Some (File _) \<Rightarrow> Inl (OSError (if cs = [] then FileExistsError else NotADirectoryError))
      | Some Dir \<Rightarrow> mkdirs ab (pre @ [c]) cs fs
      | None \<Rightarrow> mkdirs ab (pre @ [c]) cs (fs @ [((ab, pre @ [c]), Dir)]))"

subsection \<open>The world\<close>

datatype event = Urlopen string | CheckCall "string list" | PrintErr string

record world =
  files :: filesystem
  trace :: "event list"

record asset =
  asset_url :: string

record meta =
  info_version :: string
  releases :: "(string \<times> asset list) list"

record tar_entry =
  info_name :: string
  info_isdir :: bool
  info_isfile :: bool
  extractfile :: "bytes option"

datatype body = JsonDoc meta | TarGz "tar_entry list" | OtherBytes

record requirement =
  req_project_name :: string
  req_specs :: "(string \<times> string) list"

text \<open>
  What lies outside the module: the network (the response to a request may depend on
  the events before it), the pip program (an exit status and the file system it leaves),
  \<^verbatim>\<open>sys.executable\<close> (\<open>None\<close> when the name \<^verbatim>\<open>sys\<close> is not bound: the module imports
  \<^verbatim>\<open>sys\<close> only under \<^verbatim>\<open>if __name__ == "__main__"\<close>), the current directory, and the three
  operations of \<^verbatim>\<open>pkg_resources\<close> that the module calls: \<^verbatim>\<open>Requirement.parse\<close>, the
  test \<^verbatim>\<open>ver in req\<close> and \<^verbatim>\<open>parse_version\<close>, whose values are compared by the order of
  the type \<open>'k\<close>.
\<close>

record 'k env =
  net :: "event list \<Rightarrow> string \<Rightarrow> error + body"
  pip_program :: "string list \<Rightarrow> filesystem \<Rightarrow> nat \<times> filesystem"
  sys_executable :: "string option"
  getcwd :: string
  Requirement_parse :: "string \<Rightarrow> error + requirement"
  req_contains :: "requirement \<Rightarrow> string \<Rightarrow> bool"
  parse_version :: "string \<Rightarrow> 'k"

type_synonym 'a result = "(error + 'a) \<times> world"

definition urlopen :: "'k env \<Rightarrow> string \<Rightarrow> world \<Rightarrow> body result" where
  "urlopen E u w = (net E (trace w) u, w\<lparr>trace := trace w @ [Urlopen u]\<rparr>)"

definition json_load :: "body \<Rightarrow> error + meta" where
  "json_load b = (case b of JsonDoc m \<Rightarrow> Inr m | _ \<Rightarrow> Inl ValueError)"

definition tarfile_open :: "body \<Rightarrow> error + tar_entry list" where
  "tarfile_open b = (case b of TarGz es \<Rightarrow> Inr es | _ \<Rightarrow> Inl ReadError)"

definition os_makedirs :: "string \<Rightarrow> world \<Rightarrow> unit result" where
  "os_makedirs nm w =
     (if nm = [] then (Inl (OSError FileNotFoundError), w)
      else (case mkdirs (fst (normpath nm)) [] (snd (normpath nm)) (files w) of
              Inl e \<Rightarrow> (Inl e, w)
            | Inr fs' \<Rightarrow> (Inr (), w\<lparr>files := fs'\<rparr>)))"

text \<open>
  \<^verbatim>\<open>open(path, "wb")\<close> followed by \<^verbatim>\<open>write(data)\<close>: the path must not name a directory and
  its parent must be one.
\<close>

definition basename :: "string \<Rightarrow> string" where
  "basename p = rev (takeWhile (\<lambda>c. c \<noteq> CHR ''/'') (rev p))"

definition write_file :: "string \<Rightarrow> bytes \<Rightarrow> world \<Rightarrow> unit result" where
  "write_file nm d w =
     (if nm = [] then (Inl (OSError FileNotFoundError), w)
      else if basename nm \<in> {'''', ''.'', ''..''} \<or> fs_get (files w) (normpath nm) = Some Dir
        then (Inl (OSError IsADirectoryError), w)
      else (case fs_get (files w) (parent (normpath nm)) of
              None \<Rightarrow> (Inl (OSError FileNotFoundError), w)
            | Some (File _) \<Rightarrow> (Inl (OSError NotADirectoryError), w)
            | Some Dir \<Rightarrow> (Inr (), w\<lparr>files := AList.update (normpath nm) (File d) (files w)\<rparr>)))"

definition os_listdir :: "string \<Rightarrow> world \<Rightarrow> error + string list" where
  "os_listdir nm w =
     (if nm = [] then Inl (OSError FileNotFoundError)
      else (case fs_get (files w) (normpath nm) of
              None \<Rightarrow> Inl (OSError FileNotFoundError)
            | Some (File _) \<Rightarrow> Inl (OSError NotADirectoryError)
            | Some Dir \<Rightarrow>
                Inr (remdups (map (\<lambda>q. last (snd q))
                       (filter (\<lambda>q. snd q \<noteq> [] \<and> parent q = normpath nm) (map fst (files w)))))))"

definition shutil_rmtree :: "string \<Rightarrow> world \<Rightarrow> unit result" where
  "shutil_rmtree nm w =
     (if nm = [] then (Inl (OSError FileNotFoundError), w)
      else (case fs_get (files w) (normpath nm) of
              None \<Rightarrow> (Inl (OSError FileNotFoundError), w)
            | Some (File _) \<Rightarrow> (Inl (OSError NotADirectoryError), w)
            | Some Dir \<Rightarrow>
                (Inr (), w\<lparr>files := filter (\<lambda>kv. \<not> under (normpath nm) (fst kv)) (files w)\<rparr>)))"

subsection \<open>The Archive Inspector\<close>

text \<open>
  The dependency specs of one \<^verbatim>\<open>requires.txt\<close> (lines 131 to 134): each line is stripped,
  and a line that is then neither empty nor a comment is decoded and kept.
\<close>

fun read_deps :: "bytes list \<Rightarrow> error + string list" where
  "read_deps [] = Inr []"
| "read_deps (l # ls) =
     (if strip l \<noteq> [] \<and> \<not> startswith (strip l) ''#''
      then (case decode (strip l) of
              Inl e \<Rightarrow> Inl e
            | Inr d \<Rightarrow> (case read_deps ls of Inl e \<Rightarrow> Inl e | Inr ds \<Rightarrow> Inr (d # ds)))
      else read_deps ls)"

definition rel_name :: "tar_entry \<Rightarrow> string" where
  "rel_name info = snd (split_dist (info_name info))"

text \<open>
  The loop over the members of the archive (lines 117 to 143). \<open>content\<close> is the
  dictionary from destination path to bytes or \<open>None\<close>, in insertion order.
\<close>

fun scan_entries ::
  "string \<Rightarrow> tar_entry list \<Rightarrow> string list \<Rightarrow> (string \<times> bytes option) list
     \<Rightarrow> error + string list \<times> (string \<times> bytes option) list" where
  "scan_entries target_dir [] deps content = Inr (deps, content)"
| "scan_entries target_dir (info # infos) deps content =
     (if rel_name info = ''setup.py'' then Inl NotUpipCompatible
      else if str_in ''.egg-info/PKG-INFO'' (rel_name info)
        then scan_entries target_dir infos deps content
      else if str_in ''.egg-info/requires.txt'' (rel_name info)
        then (case extractfile info of
                None \<Rightarrow> Inl TypeError
              | Some d \<Rightarrow>
                  (case read_deps (readlines d) of
                     Inl e \<Rightarrow> Inl e
                   | Inr ds \<Rightarrow> scan_entries target_dir infos (deps @ ds) content))
      else if str_in ''.egg-info'' (rel_name info)
        then scan_entries target_dir infos deps content
      else if info_isdir info
        then scan_entries target_dir infos deps
               (AList.update (os_path_join target_dir (rel_name info)) None content)
      else if info_isfile info
        then (case extractfile info of
                None \<Rightarrow> Inl AttributeError
              | Some d \<Rightarrow>
                  scan_entries target_dir infos deps
                    (AList.update (os_path_join target_dir (rel_name info)) (Some d) content))
      else scan_entries target_dir infos deps content)"

text \<open>The loop that writes the dictionary to disk (lines 147 to 154).\<close>

fun write_content :: "(string \<times> bytes option) list \<Rightarrow> world \<Rightarrow> unit result" where
  "write_content [] w = (Inr (), w)"
| "write_content ((p, None) # rest) w =
     (case os_makedirs p w of
        (Inl e, w') \<Rightarrow> (Inl e, w')
      | (Inr _, w') \<Rightarrow> write_content rest w')"
| "write_content ((p, Some d) # rest) w =
     (case os_makedirs (os_path_dirname p) w of
        (Inl e, w') \<Rightarrow> (Inl e, w')
      | (Inr _, w') \<Rightarrow>
          (case write_file p d w' of
             (Inl e, w'') \<Rightarrow> (Inl e, w'')
           | (Inr _, w'') \<Rightarrow> write_content rest w''))"

definition install_single_upip_compatible_from_url ::
  "'k env \<Rightarrow> string \<Rightarrow> string \<Rightarrow> string \<Rightarrow> world \<Rightarrow> string list result" where
  "install_single_upip_compatible_from_url E project_name u target_dir w =
     (case urlopen E u w of
        (Inl e, w1) \<Rightarrow> (Inl e, w1)
      | (Inr download_data, w1) \<Rightarrow>
          (case tarfile_open download_data of
             Inl e \<Rightarrow> (Inl e, w1)
           | Inr tar \<Rightarrow>
               (case scan_entries target_dir tar [] [] of
                  Inl e \<Rightarrow> (Inl e, w1)
                | Inr (deps, content) \<Rightarrow>
                    (case write_content content w1 of
                       (Inl e, w2) \<Rightarrow> (Inl e, w2)
                     | (Inr _, w2) \<Rightarrow> (Inr deps, w2)))))"

subsection \<open>The Version Resolver\<close>

definition release_assets :: "meta \<Rightarrow> string \<Rightarrow> asset list" where
  "release_assets m ver = (case map_of (releases m) ver of None \<Rightarrow> [] | Some a \<Rightarrow> a)"

text \<open>
  Lines 249 to 258. \<^verbatim>\<open>sorted(..., key=parse_version)[-1]\<close> is the last element of a stable
  sort by the key.
\<close>

definition resolve_version :: "('k::linorder) env \<Rightarrow> requirement \<Rightarrow> meta \<Rightarrow> string option" where
  "resolve_version E req main_meta =
     (let matching_versions =
            filter (\<lambda>ver. req_contains E req ver \<and> length (release_assets main_meta ver) > 0)
              (map fst (releases main_meta))
      in if matching_versions = [] then None
         else Some (last (sort_key (parse_version E) matching_versions)))"

subsection \<open>The Metadata Client\<close>

text \<open>\<^verbatim>\<open>repr\<close> of a string and \<^verbatim>\<open>str\<close> of a list of strings, for ASCII text.\<close>

definition hex_digit :: "nat \<Rightarrow> char" where
  "hex_digit n = ''0123456789abcdef'' ! (n mod 16)"

definition repr_char :: "char \<Rightarrow> char \<Rightarrow> string" where
  "repr_char q c =
     (if c = q \<or> c = CHR 0x5C then [CHR 0x5C, c]
      else if c = CHR 0x09 then [CHR 0x5C, CHR ''t'']
      else if c = CHR 0x0A then [CHR 0x5C, CHR ''n'']
      else if c = CHR 0x0D then [CHR 0x5C, CHR ''r'']
      else if (of_char c :: nat) < 32 \<or> (of_char c :: nat) = 127
        then [CHR 0x5C, CHR ''x'', hex_digit (of_char c div 16), hex_digit (of_char c)]
      else [c])"

definition py_repr :: "string \<Rightarrow> string" where
  "py_repr s =
     (let q = (if CHR 0x27 \<in> set s \<and> CHR 0x22 \<notin> set s then CHR 0x22 else CHR 0x27)
      in [q] @ concat (map (repr_char q) s) @ [q])"

fun join_comma :: "string list \<Rightarrow> string" where
  "join_comma [] = []"
| "join_comma [x] = x"
| "join_comma (x # y # ys) = x @ '', '' @ join_comma (y # ys)"

definition str_of_list :: "string list \<Rightarrow> string" where
  "str_of_list xs = ''['' @ join_comma (map py_repr xs) @ '']''"

definition not_found_message :: "string \<Rightarrow> string list \<Rightarrow> string" where
  "not_found_message project_name index_urls =
     ''Could not find '' @ [CHR 0x27] @ project_name @ [CHR 0x27]
       @ '' from any of the indexes '' @ str_of_list index_urls"

text \<open>
  The loop of \<^verbatim>\<open>_fetch_metadata\<close> (lines 199 to 228) over the index URLs that are left;
  \<open>index_urls\<close> is the whole list, for the message of line 231. \<open>ver_specs\<close> is the local
  variable of that name: it starts as \<^verbatim>\<open>req.specs\<close> (each clause written as operator
  followed by version), line 208 assigns to it, and nothing reads it afterwards.
\<close>

fun fetch_loop ::
  "('k::linorder) env \<Rightarrow> requirement \<Rightarrow> string list \<Rightarrow> string list \<Rightarrow> string list \<Rightarrow> world
     \<Rightarrow> meta result" where
  "fetch_loop E req index_urls ver_specs [] w =
     (Inl (UserError (not_found_message (req_project_name req) index_urls)), w)"
| "fetch_loop E req index_urls ver_specs (index_url # rest) w =
     (case urlopen E (index_url @ ''/'' @ req_project_name req @ ''/json'') w of
        (Inl e, w1) \<Rightarrow>
          (if e = HTTPError 404 then fetch_loop E req index_urls ver_specs rest w1
           else (Inl e, w1))
      | (Inr b, w1) \<Rightarrow>
          (case json_load b of
             Inl e \<Rightarrow> (Inl e, w1)
           | Inr main_meta \<Rightarrow>
               (let current_version = info_version main_meta;
                    ver_specs' = (if ver_specs = [] then [''=='' @ current_version] else ver_specs)
                in case resolve_version E req main_meta of
                     None \<Rightarrow> fetch_loop E req index_urls ver_specs' rest w1
                   | Some ver \<Rightarrow>
                       if ver = current_version then (Inr main_meta, w1)
                       else (case urlopen E (index_url @ ''/'' @ req_project_name req @ ''/''
                                              @ ver @ ''/json'') w1 of
                               (Inl e, w2) \<Rightarrow>
                                 (if e = HTTPError 404
                                  then fetch_loop E req index_urls ver_specs' rest w2
                                  else (Inl e, w2))
                             | (Inr b2, w2) \<Rightarrow>
                                 (case json_load b2 of
                                    Inl e \<Rightarrow> (Inl e, w2)
                                  | Inr m \<Rightarrow> (Inr m, w2))))))"

definition fetch_metadata ::
  "('k::linorder) env \<Rightarrow> requirement \<Rightarrow> string list \<Rightarrow> world \<Rightarrow> meta result" where
  "fetch_metadata E req index_urls w =
     fetch_loop E req index_urls (map (\<lambda>(op, v). op @ v) (req_specs req)) index_urls w"

subsection \<open>The Resolution Engine\<close>

record engine_state =
  installed_specs :: "string set"
  specs_to_be_processed :: "string list"
  pip_specs :: "string list"

text \<open>Lines 96 to 98: the dependency specs that are new join the back of the queue.\<close>

fun add_dep_specs :: "string list \<Rightarrow> engine_state \<Rightarrow> engine_state" where
  "add_dep_specs [] st = st"
| "add_dep_specs (dep_spec # others) st =
     add_dep_specs others
       (if dep_spec \<notin> installed_specs st \<and> dep_spec \<notin> set (specs_to_be_processed st)
        then st\<lparr>specs_to_be_processed := specs_to_be_processed st @ [dep_spec]\<rparr>
        else st)"

text \<open>
  One pass through the body of the \<^verbatim>\<open>while\<close> loop (lines 69 to 100), for the spec \<open>spec\<close>
  that \<^verbatim>\<open>pop(0)\<close> has just taken from the queue.
\<close>

definition loop_body ::
  "('k::linorder) env \<Rightarrow> string \<Rightarrow> string list \<Rightarrow> string \<Rightarrow> engine_state \<Rightarrow> world
     \<Rightarrow> engine_state result" where
  "loop_body E install_dir index_urls spec st w =
     (if spec \<in> installed_specs st \<or> spec \<in> set (pip_specs st) then (Inr st, w)
      else (case Requirement_parse E spec of
              Inl e \<Rightarrow> (Inl e, w)
            | Inr req \<Rightarrow>
                (case fetch_metadata E req index_urls w of
                   (Inl e, w1) \<Rightarrow> (Inl e, w1)
                 | (Inr m, w1) \<Rightarrow>
                     (case map_of (releases m) (info_version m) of
                        None \<Rightarrow> (Inl (KeyError (info_version m)), w1)
                      | Some assets \<Rightarrow>
                          if length assets \<noteq> 1 \<or> \<not> endswith (asset_url (hd assets)) ''.tar.gz''
                          then (Inr (st\<lparr>pip_specs := pip_specs st @ [spec]\<rparr>), w1)
                          else (case install_single_upip_compatible_from_url E
                                       (req_project_name req) (asset_url (hd assets)) install_dir w1 of
                                  (Inl e, w2) \<Rightarrow>
                                    (if e = NotUpipCompatible
                                     then (Inr (st\<lparr>pip_specs := pip_specs st @ [spec]\<rparr>), w2)
                                     else (Inl e, w2))
                                | (Inr dep_specs, w2) \<Rightarrow>
                                    (Inr (add_dep_specs dep_specs
                                            (st\<lparr>installed_specs := insert spec (installed_specs st)\<rparr>)),
                                     w2))))))"

text \<open>
  The \<^verbatim>\<open>while\<close> loop. The queue can grow for ever (an index may serve an endless chain of
  dependencies), so the loop takes fuel, one unit for each pass, and \<open>None\<close> says that
  the fuel ran out before the queue was empty.
\<close>

fun engine_loop ::
  "nat \<Rightarrow> ('k::linorder) env \<Rightarrow> string \<Rightarrow> string list \<Rightarrow> engine_state \<Rightarrow> world
     \<Rightarrow> engine_state result option" where
  "engine_loop fuel E install_dir index_urls st w =
     (case specs_to_be_processed st of
        [] \<Rightarrow> Some (Inr st, w)
      | spec # rest \<Rightarrow>
          (case fuel of
             0 \<Rightarrow> None
           | Suc fuel' \<Rightarrow>
               (case loop_body E install_dir index_urls spec (st\<lparr>specs_to_be_processed := rest\<rparr>) w of
                  (Inl e, w') \<Rightarrow> Some (Inl e, w')
                | (Inr st', w') \<Rightarrow> engine_loop fuel' E install_dir index_urls st' w')))"

definition initial_state :: "string list \<Rightarrow> engine_state" where
  "initial_state spec_list =
     \<lparr>installed_specs = {}, specs_to_be_processed = spec_list, pip_specs = []\<rparr>"

definition install_all_upip_compatible ::
  "nat \<Rightarrow> ('k::linorder) env \<Rightarrow> string list \<Rightarrow> string \<Rightarrow> string list \<Rightarrow> world
     \<Rightarrow> string list result option" where
  "install_all_upip_compatible fuel E spec_list install_dir index_urls w =
     (case engine_loop fuel E install_dir index_urls (initial_state spec_list) w of
        None \<Rightarrow> None
      | Some (Inl e, w') \<Rightarrow> Some (Inl e, w')
      | Some (Inr st, w') \<Rightarrow> Some (Inr (pip_specs st), w'))"

subsection \<open>The Fallback Installer\<close>

definition MP_ORG_INDEX :: string where
  "MP_ORG_INDEX = ''https://micropython.org/pi''"

definition DEFAULT_INDEX_URLS :: "string list" where
  "DEFAULT_INDEX_URLS = [MP_ORG_INDEX, ''https://pypi.org/pypi'']"

definition check_call :: "'k env \<Rightarrow> string list \<Rightarrow> world \<Rightarrow> unit result" where
  "check_call E cmd w =
     (let w' = w\<lparr>files := snd (pip_program E cmd (files w)), trace := trace w @ [CheckCall cmd]\<rparr>
      in if fst (pip_program E cmd (files w)) \<noteq> 0
         then (Inl (CalledProcessError (fst (pip_program E cmd (files w)))), w')
         else (Inr (), w'))"

text \<open>Lines 166 to 178: the arguments of pip, from the indexes that are left.\<close>

definition pip_args :: "string \<Rightarrow> string list \<Rightarrow> string list" where
  "pip_args target_dir suitable_indexes =
     [''--no-input'', ''--no-color'', ''--disable-pip-version-check'', ''install'', ''--upgrade'',
      ''--target'', target_dir]
     @ [''--index-url'', hd suitable_indexes]
     @ concat (map (\<lambda>u. [''--extra-index-url'', u]) (tl suitable_indexes))"

text \<open>Lines 190 to 192, over the names that \<^verbatim>\<open>os.listdir\<close> returned.\<close>

fun remove_dist_infos :: "string \<Rightarrow> string list \<Rightarrow> world \<Rightarrow> unit result" where
  "remove_dist_infos target_dir [] w = (Inr (), w)"
| "remove_dist_infos target_dir (nm # names) w =
     (if endswith nm ''.dist-info''
      then (case shutil_rmtree (os_path_join target_dir nm) w of
              (Inl e, w') \<Rightarrow> (Inl e, w')
            | (Inr _, w') \<Rightarrow> remove_dist_infos target_dir names w')
      else remove_dist_infos target_dir names w)"

definition install_with_pip ::
  "'k env \<Rightarrow> string list \<Rightarrow> string \<Rightarrow> string list \<Rightarrow> world \<Rightarrow> unit result" where
  "install_with_pip E spec_list target_dir index_urls w =
     (let suitable_indexes = filter (\<lambda>u. u \<noteq> MP_ORG_INDEX) index_urls
      in if suitable_indexes = [] then (Inl (UserError ''No suitable indexes for pip''), w)
         else (case sys_executable E of
                 None \<Rightarrow> (Inl (NameError ''sys''), w)
               | Some exe \<Rightarrow>
                   (case check_call E ([exe, ''-m'', ''pip''] @ pip_args target_dir suitable_indexes
                                        @ spec_list) w of
                      (Inl e, w1) \<Rightarrow> (Inl e, w1)
                    | (Inr _, w1) \<Rightarrow>
                        (case os_listdir target_dir w1 of
                           Inl e \<Rightarrow> (Inl e, w1)
                         | Inr names \<Rightarrow> remove_dist_infos target_dir names w1))))"

subsection \<open>The entry point\<close>

datatype spec_arg = Str string | StrList "string list"

text \<open>The two \<^verbatim>\<open>except\<close> clauses of \<^verbatim>\<open>install\<close> (lines 52 to 57).\<close>

definition handle_error :: "'k env \<Rightarrow> error \<Rightarrow> world \<Rightarrow> unit result" where
  "handle_error E e w =
     (case e of
        UserError msg \<Rightarrow>
          (case sys_executable E of
             None \<Rightarrow> (Inl (NameError ''sys''), w)
           | Some _ \<Rightarrow> (Inl (SystemExit 1), w\<lparr>trace := trace w @ [PrintErr (''ERROR: '' @ msg)]\<rparr>))
      | CalledProcessError _ \<Rightarrow> (Inl (SystemExit 1), w)
      | _ \<Rightarrow> (Inl e, w))"

definition install ::
  "nat \<Rightarrow> ('k::linorder) env \<Rightarrow> spec_arg \<Rightarrow> string option \<Rightarrow> string list option \<Rightarrow> world
     \<Rightarrow> unit result option" where
  "install fuel E spec install_dir index_urls w =
     (let spec_list = (case spec of Str s \<Rightarrow> [s] | StrList l \<Rightarrow> l);
          dir = (case install_dir of None \<Rightarrow> getcwd E | Some d \<Rightarrow> if d = [] then getcwd E else d);
          urls = (case index_urls of
                    None \<Rightarrow> DEFAULT_INDEX_URLS
                  | Some l \<Rightarrow> if l = [] then DEFAULT_INDEX_URLS else l)
      in case install_all_upip_compatible fuel E spec_list dir urls w of
           None \<Rightarrow> None
         | Some (Inl e, w1) \<Rightarrow> Some (handle_error E e w1)
         | Some (Inr pip_list, w1) \<Rightarrow>
             if pip_list \<noteq> []
             then (case install_with_pip E pip_list dir urls w1 of
                     (Inl e, w2) \<Rightarrow> Some (handle_error E e w2)
                   | (Inr _, w2) \<Rightarrow> Some (Inr (), w2))
             else Some (Inr (), w1))"

subsection \<open>Notions used in the statements\<close>

text \<open>
  The entries that line 130 sends to the dependency parser, and the specs that the
  parser keeps of one of them: the stripped lines that are neither empty nor comments.
\<close>

definition is_requires :: "tar_entry \<Rightarrow> bool" where
  "is_requires info =
     (str_in ''.egg-info/requires.txt'' (rel_name info)
      \<and> \<not> str_in ''.egg-info/PKG-INFO'' (rel_name info))"

definition declared_deps :: "tar_entry \<Rightarrow> string list" where
  "declared_deps info =
     (case extractfile info of
        None \<Rightarrow> []
      | Some d \<Rightarrow>
          map strip (filter (\<lambda>l. strip l \<noteq> [] \<and> \<not> startswith (strip l) ''#'') (readlines d)))"

text \<open>
  An entry that the scan can read: a \<^verbatim>\<open>requires.txt\<close> entry has content and its specs
  decode, and a regular file has content.
\<close>

definition readable :: "tar_entry \<Rightarrow> bool" where
  "readable info =
     (case extractfile info of
        None \<Rightarrow> \<not> is_requires info \<and> \<not> info_isfile info
      | Some d \<Rightarrow>
          \<not> is_requires info \<or> (case read_deps (readlines d) of Inl _ \<Rightarrow> False | Inr _ \<Rightarrow> True))"

text \<open>
  The entries that reach lines 140 to 143 and are recorded there, what is recorded for
  them, and the file that their destination names.
\<close>

definition stageable :: "tar_entry \<Rightarrow> bool" where
  "stageable info =
     (\<not> str_in ''.egg-info'' (rel_name info) \<and> (info_isdir info \<or> info_isfile info))"

definition staged_value :: "tar_entry \<Rightarrow> bytes option" where
  "staged_value info = (if info_isdir info then None else extractfile info)"

definition dest :: "string \<Rightarrow> tar_entry \<Rightarrow> path" where
  "dest target_dir info = normpath (os_path_join target_dir (rel_name info))"

definition node_of :: "bytes option \<Rightarrow> node" where
  "node_of v = (case v of None \<Rightarrow> Dir | Some d \<Rightarrow> File d)"

subsection \<open>A small instance of the environment\<close>

text \<open>
  An executable stand-in for \<^verbatim>\<open>pkg_resources\<close>, used only to run the code on concrete
  inputs: a version is read as its dotted numbers, without trailing zeros, and a flag
  that is \<open>0\<close> when anything follows them (a pre-release such as \<^verbatim>\<open>2.0b1\<close>) and \<open>1\<close>
  otherwise; a requirement is a name followed by comma-separated clauses, each an
  operator and a version; a requirement without clauses contains every version.
\<close>

definition is_digit :: "char \<Rightarrow> bool" where
  "is_digit c = (48 \<le> (of_char c :: nat) \<and> (of_char c :: nat) \<le> 57)"

definition num_of :: "string \<Rightarrow> nat" where
  "num_of ds = foldl (\<lambda>n c. 10 * n + (of_char c - 48)) 0 ds"

fun sample_release :: "string list \<Rightarrow> nat list" where
  "sample_release [] = []"
| "sample_release (c # cs) =
     (if takeWhile is_digit c = [] then []
      else if takeWhile is_digit c = c then num_of c # sample_release cs
      else [num_of (takeWhile is_digit c)])"

definition sample_parse_version :: "string \<Rightarrow> nat list \<times> nat" where
  "sample_parse_version v =
     (rev (dropWhile (\<lambda>n. n = 0) (rev (sample_release (split_char CHR ''.'' v)))),
      if list_all (\<lambda>c. is_digit c \<or> c = CHR ''.'') v then 1 else 0)"

definition sample_sat :: "string \<Rightarrow> nat list \<times> nat \<Rightarrow> nat list \<times> nat \<Rightarrow> bool" where
  "sample_sat opr v b =
     (if opr = ''>='' then b \<le> v
      else if opr = ''<='' then v \<le> b
      else if opr = ''=='' then v = b
      else if opr = ''!='' then v \<noteq> b
      else if opr = ''>'' then b < v
      else if opr = ''<'' then v < b
      else False)"

definition sample_contains :: "requirement \<Rightarrow> string \<Rightarrow> bool" where
  "sample_contains req ver =
     list_all (\<lambda>cl. sample_sat (fst cl) (sample_parse_version ver) (sample_parse_version (snd cl)))
       (req_specs req)"

definition is_op_char :: "char \<Rightarrow> bool" where
  "is_op_char c = (c \<in> set ''<>=!~'')"

definition sample_Requirement_parse :: "string \<Rightarrow> error + requirement" where
  "sample_Requirement_parse s =
     (if takeWhile (\<lambda>c. \<not> is_op_char c) s = [] then Inl RequirementParseError
      else Inr \<lparr>req_project_name = takeWhile (\<lambda>c. \<not> is_op_char c) s,
                req_specs =
                  (if dropWhile (\<lambda>c. \<not> is_op_char c) s = [] then []
                   else map (\<lambda>cl. (takeWhile is_op_char cl, dropWhile is_op_char cl))
                          (split_char CHR '','' (dropWhile (\<lambda>c. \<not> is_op_char c) s)))\<rparr>)"

text \<open>The archives and index documents of the examples.\<close>

definition file_entry :: "string \<Rightarrow> bytes \<Rightarrow> tar_entry" where
  "file_entry nm d =
     \<lparr>info_name = nm, info_isdir = False, info_isfile = True, extractfile = Some d\<rparr>"

definition dir_entry :: "string \<Rightarrow> tar_entry" where
  "dir_entry nm = \<lparr>info_name = nm, info_isdir = True, info_isfile = False, extractfile = None\<rparr>"

definition link_entry :: "string \<Rightarrow> tar_entry" where
  "link_entry nm = \<lparr>info_name = nm, info_isdir = False, info_isfile = False, extractfile = None\<rparr>"

definition nested_tar :: "tar_entry list" where
  "nested_tar = [file_entry ''pkg-1.0/examples/setup.py'' ''x'']"

definition rejected_tar :: "tar_entry list" where
  "rejected_tar =
     [file_entry ''pkg-1.0/pkg.py'' ''x'',
      file_entry ''pkg-1.0/pkg.egg-info/requires.txt'' ''dep'',
      file_entry ''pkg-1.0/setup.py'' ''y'']"

definition unreadable_tar :: "tar_entry list" where
  "unreadable_tar =
     [dir_entry ''pkg-1.0/pkg.egg-info/requires.txt'', file_entry ''pkg-1.0/setup.py'' ''y'']"

definition link_tar :: "tar_entry list" where
  "link_tar = [link_entry ''pkg-1.0/link'', file_entry ''pkg-1.0/notes.egg-info.txt'' ''n'']"

definition dup_tar :: "tar_entry list" where
  "dup_tar = [file_entry ''pkg-1.0/m.py'' ''old'', file_entry ''pkg-1.0/m.py'' ''new'']"

definition escape_tar :: "tar_entry list" where
  "escape_tar = [file_entry ''pkg-1.0//etc/passwd'' ''x'']"

definition a_tar :: "tar_entry list" where
  "a_tar =
     [dir_entry ''a-1.0'',
      file_entry ''a-1.0/a.py'' ''import b'',
      file_entry ''a-1.0/a.egg-info/PKG-INFO'' ''Name: a'',
      file_entry ''a-1.0/a.egg-info/requires.txt'' [CHR ''#'', CHR '' '', CHR ''x'', CHR 0x0A, CHR '' '', CHR ''b'', CHR '' '', CHR 0x0A, CHR 0x0A]]"

definition b_tar :: "tar_entry list" where
  "b_tar = [file_entry ''b-1.0/b.py'' ''pass'']"

definition single_doc :: "string \<Rightarrow> string \<Rightarrow> meta" where
  "single_doc ver u = \<lparr>info_version = ver, releases = [(ver, [\<lparr>asset_url = u\<rparr>])]\<rparr>"

definition pre_doc :: "string \<Rightarrow> meta" where
  "pre_doc current =
     \<lparr>info_version = current,
      releases = [(''1.0'', [\<lparr>asset_url = ''https://files/pkg-1.0.tar.gz''\<rparr>]),
                  (''2.0b1'', [\<lparr>asset_url = ''https://files/pkg-2.0b1.tar.gz''\<rparr>])]\<rparr>"

definition four_doc :: meta where
  "four_doc =
     \<lparr>info_version = ''1.2'',
      releases = [(''0.9'', []),
                  (''1.0'', [\<lparr>asset_url = ''https://files/pkg-1.0.tar.gz''\<rparr>]),
                  (''1.2'', [\<lparr>asset_url = ''https://files/pkg-1.2.tar.gz''\<rparr>]),
                  (''2.0-beta'', [])]\<rparr>"

definition two_doc :: meta where
  "two_doc =
     \<lparr>info_version = ''1.0'',
      releases = [(''1.0'', [\<lparr>asset_url = ''https://files/two-1.0.tar.gz''\<rparr>,
                             \<lparr>asset_url = ''https://files/two-1.0-py3-none-any.whl''\<rparr>])]\<rparr>"

definition sample_pages :: "(string \<times> body) list" where
  "sample_pages =
     [(''https://files/nested.tar.gz'', TarGz nested_tar),
      (''https://files/rejected.tar.gz'', TarGz rejected_tar),
      (''https://files/unreadable.tar.gz'', TarGz unreadable_tar),
      (''https://files/link.tar.gz'', TarGz link_tar),
      (''https://files/dup.tar.gz'', TarGz dup_tar),
      (''https://files/escape.tar.gz'', TarGz escape_tar),
      (''https://files/a-1.0.tar.gz'', TarGz a_tar),
      (''https://files/b-1.0.tar.gz'', TarGz b_tar),
      (''https://idx2/a/json'', JsonDoc (single_doc ''1.0'' ''https://files/a-1.0.tar.gz'')),
      (''https://idx2/b/json'', JsonDoc (single_doc ''1.0'' ''https://files/b-1.0.tar.gz'')),
      (''https://idx2/pkg/json'', JsonDoc (pre_doc ''1.0'')),
      (''https://idx2/pkg/2.0b1/json'', JsonDoc (pre_doc ''2.0b1'')),
      (''https://idx2/two/json'', JsonDoc two_doc)]"

text \<open>
  A network that serves these pages, answers 500 for every address under
  \<^verbatim>\<open>https://down\<close> and 404 for the rest.
\<close>

definition sample_net :: "event list \<Rightarrow> string \<Rightarrow> error + body" where
  "sample_net t u =
     (case map_of sample_pages u of
        Some b \<Rightarrow> Inr b
      | None \<Rightarrow> if startswith u ''https://down'' then Inl (HTTPError 500) else Inl (HTTPError 404))"

text \<open>A pip that succeeds and leaves a package with its metadata directory in \<^verbatim>\<open>lib\<close>.\<close>

definition sample_pip :: "string list \<Rightarrow> filesystem \<Rightarrow> nat \<times> filesystem" where
  "sample_pip cmd fs =
     (0, fs @ [((False, [''lib'', ''two'']), Dir),
               ((False, [''lib'', ''two'', ''__init__.py'']), File ''pass''),
               ((False, [''lib'', ''two-1.0.dist-info'']), Dir),
               ((False, [''lib'', ''two-1.0.dist-info'', ''METADATA'']), File ''Name: two'')])"

definition sample_env :: "(nat list \<times> nat) env" where
  "sample_env =
     \<lparr>net = sample_net, pip_program = sample_pip, sys_executable = Some ''/usr/bin/python3'',
      getcwd = ''/home/user'', Requirement_parse = sample_Requirement_parse,
      req_contains = sample_contains, parse_version = sample_parse_version\<rparr>"

definition empty_world :: world where
  "empty_world = \<lparr>files = [], trace = []\<rparr>"

definition lib_world :: world where
  "lib_world = \<lparr>files = [((False, [''lib'']), Dir)], trace = []\<rparr>"

definition notes_world :: world where
  "notes_world =
     \<lparr>files = [((False, [''lib'']), Dir), ((False, [''lib'', ''notes.dist-info'']), File ''n'')],
      trace = []\<rparr>"

definition pkg_req :: requirement where
  "pkg_req = \<lparr>req_project_name = ''pkg'', req_specs = [(''>='', ''1.0'')]\<rparr>"

definition bare_req :: "string \<Rightarrow> requirement" where
  "bare_req nm = \<lparr>req_project_name = nm, req_specs = []\<rparr>"

text \<open>
  The fallback list has no duplicates and shares no spec with the set of installed
  specs.
\<close>

definition sorted_out :: "engine_state \<Rightarrow> bool" where
  "sorted_out st = (distinct (pip_specs st) \<and> set (pip_specs st) \<inter> installed_specs st = {})"

text \<open>
  A file name: not empty, without a slash, and neither \<^verbatim>\<open>.\<close> nor \<^verbatim>\<open>..\<close>. A file system
  with proper names has only such names as path components.
\<close>

definition file_name :: "string \<Rightarrow> bool" where
  "file_name nm = (nm \<noteq> [] \<and> CHR ''/'' \<notin> set nm \<and> nm \<noteq> ''.'' \<and> nm \<noteq> ''..'')"

definition proper_names :: "filesystem \<Rightarrow> bool" where
  "proper_names fs = list_all (\<lambda>kv. list_all file_name (snd (fst kv))) fs"

text \<open>
  The components of a root-relative path, none for the empty path. The path is proper
  when all of them are file names: it is relative and stays below the directory it is
  joined to.
\<close>

definition rel_comps :: "string \<Rightarrow> string list" where
  "rel_comps r = (if r = [] then [] else split_char CHR ''/'' r)"

definition proper_rel :: "string \<Rightarrow> bool" where
  "proper_rel r = list_all file_name (rel_comps r)"

text \<open>The command line of line 180, for the indexes \<open>s\<close> that are left.\<close>

definition pip_command :: "string \<Rightarrow> string \<Rightarrow> string list \<Rightarrow> string list \<Rightarrow> string list" where
  "pip_command exe target_dir s spec_list =
     [exe, ''-m'', ''pip'', ''--no-input'', ''--no-color'', ''--disable-pip-version-check'',
      ''install'', ''--upgrade'', ''--target'', target_dir, ''--index-url'', hd s]
     @ concat (map (\<lambda>u. [''--extra-index-url'', u]) (tl s)) @ spec_list"

section \<open>Properties\<close>

subsection \<open>Strings, directories and files\<close>

lemma startswith_append: "startswith s (p @ q) \<Longrightarrow> startswith s p"
proof -
  assume "startswith s (p @ q)"
  then have "take (length (p @ q)) s = p @ q" by (simp add: startswith_def)
  then have "take (length p) (take (length (p @ q)) s) = take (length p) (p @ q)" by simp
  then show ?thesis by (simp add: startswith_def min_def)
qed

lemma str_in_append: "str_in (p @ q) s \<Longrightarrow> str_in p s"
proof (induction s)
  case Nil
  then show ?case by simp
next
  case (Cons c cs)
  then show ?case using startswith_append[of "c # cs" p q] by auto
qed

lemma no_egg_info:
  assumes "\<not> str_in ''.egg-info'' r"
  shows "\<not> str_in ''.egg-info/PKG-INFO'' r" and "\<not> str_in ''.egg-info/requires.txt'' r"
  using assms str_in_append[of "''.egg-info''" "''/PKG-INFO''" r]
    str_in_append[of "''.egg-info''" "''/requires.txt''" r] by auto

lemma fs_get_append_keeps: "fs_get fs q = Some n \<Longrightarrow> fs_get (fs @ xs) q = Some n"
  by (simp add: fs_get_def map_add_Some_iff split: if_splits)

lemma fs_get_append_new:
  "fs_get fs k = None \<Longrightarrow> fs_get (fs @ [(k, n)]) k = Some n"
  by (simp add: fs_get_def map_add_Some_iff split: if_splits)

lemma mkdirs_keeps:
  "mkdirs ab pre cs fs = Inr fs' \<Longrightarrow> fs_get fs q = Some n \<Longrightarrow> fs_get fs' q = Some n"
proof (induction cs arbitrary: pre fs)
  case Nil
  then show ?case by simp
next
  case (Cons c cs)
  show ?case
  proof (cases "fs_get fs (ab, pre @ [c])")
    case None
    with Cons.prems have "mkdirs ab (pre @ [c]) cs (fs @ [((ab, pre @ [c]), Dir)]) = Inr fs'"
      by simp
    then show ?thesis
      using Cons.IH fs_get_append_keeps[OF Cons.prems(2)] by blast
  next
    case (Some nd)
    with Cons.prems show ?thesis using Cons.IH by (cases nd) auto
  qed
qed

lemma mkdirs_makes:
  "mkdirs ab pre cs fs = Inr fs' \<Longrightarrow> (cs = [] \<longrightarrow> fs_get fs (ab, pre) = Some Dir)
     \<Longrightarrow> fs_get fs' (ab, pre @ cs) = Some Dir"
proof (induction cs arbitrary: pre fs)
  case Nil
  then show ?case by simp
next
  case (Cons c cs)
  show ?case
  proof (cases "fs_get fs (ab, pre @ [c])")
    case None
    with Cons.prems have m: "mkdirs ab (pre @ [c]) cs (fs @ [((ab, pre @ [c]), Dir)]) = Inr fs'"
      by simp
    have "fs_get (fs @ [((ab, pre @ [c]), Dir)]) (ab, pre @ [c]) = Some Dir"
      using fs_get_append_new[OF None] .
    then have "fs_get fs' (ab, (pre @ [c]) @ cs) = Some Dir"
      using Cons.IH[OF m] by blast
    then show ?thesis by simp
  next
    case (Some nd)
    show ?thesis
    proof (cases nd)
      case Dir
      with Some Cons.prems have m: "mkdirs ab (pre @ [c]) cs fs = Inr fs'" by simp
      have "fs_get fs' (ab, (pre @ [c]) @ cs) = Some Dir"
        using Cons.IH[OF m] Some Dir by blast
      then show ?thesis by simp
    next
      case (File x)
      with Some Cons.prems show ?thesis by simp
    qed
  qed
qed

lemma os_makedirs_ok:
  assumes "os_makedirs nm w = (Inr u, w')"
  shows "fs_get (files w') (normpath nm) = Some Dir"
    and "trace w' = trace w"
    and "\<And>q n. fs_get (files w) q = Some n \<Longrightarrow> fs_get (files w') q = Some n"
proof -
  from assms obtain fs' where
    m: "mkdirs (fst (normpath nm)) [] (snd (normpath nm)) (files w) = Inr fs'"
    and w': "w' = w\<lparr>files := fs'\<rparr>"
    by (auto simp: os_makedirs_def split: if_splits sum.splits)
  have "fs_get fs' (fst (normpath nm), [] @ snd (normpath nm)) = Some Dir"
    by (rule mkdirs_makes[OF m]) (simp add: fs_get_def)
  then show "fs_get (files w') (normpath nm) = Some Dir" using w' by simp
  show "trace w' = trace w" using w' by simp
  show "fs_get (files w') q = Some n" if "fs_get (files w) q = Some n" for q n
    using mkdirs_keeps[OF m that] w' by simp
qed

lemma fs_get_update:
  "fs_get (AList.update p v fs) q = (if snd q = [] then Some Dir else if q = p then Some v else map_of fs q)"
  by (simp add: fs_get_def update_conv')

lemma write_file_ok:
  assumes "write_file nm d w = (Inr u, w')"
  shows "fs_get (files w') (normpath nm) = Some (File d)"
    and "trace w' = trace w"
    and "\<And>q. q \<noteq> normpath nm \<Longrightarrow> fs_get (files w') q = fs_get (files w) q"
proof -
  from assms have nd: "fs_get (files w) (normpath nm) \<noteq> Some Dir"
    and w': "w' = w\<lparr>files := AList.update (normpath nm) (File d) (files w)\<rparr>"
    by (auto simp: write_file_def split: if_splits option.splits node.splits)
  from nd have ne: "snd (normpath nm) \<noteq> []" by (auto simp: fs_get_def)
  show "fs_get (files w') (normpath nm) = Some (File d)"
    using w' ne by (simp add: fs_get_update)
  show "trace w' = trace w" using w' by simp
  show "fs_get (files w') q = fs_get (files w) q" if "q \<noteq> normpath nm" for q
    using that w' by (simp add: fs_get_def update_conv')
qed

lemma write_file_keeps_dir:
  assumes "write_file nm d w = (Inr u, w')" and "fs_get (files w) q = Some Dir"
  shows "fs_get (files w') q = Some Dir"
proof -
  from assms(1) have "fs_get (files w) (normpath nm) \<noteq> Some Dir"
    by (auto simp: write_file_def split: if_splits option.splits node.splits)
  with assms(2) have "q \<noteq> normpath nm" by auto
  then show ?thesis using write_file_ok(3)[OF assms(1)] assms(2) by simp
qed

lemma write_content_keeps_dir:
  "write_content c w = (Inr u, w') \<Longrightarrow> fs_get (files w) q = Some Dir
     \<Longrightarrow> fs_get (files w') q = Some Dir"
proof (induction c w rule: write_content.induct)
  case (1 w)
  then show ?case by simp
next
  case (2 p rest w)
  from "2.prems"(1) obtain w1 where m: "os_makedirs p w = (Inr (), w1)"
    and r: "write_content rest w1 = (Inr u, w')"
    by (auto split: prod.splits sum.splits)
  from os_makedirs_ok(3)[OF m] "2.prems"(2) have "fs_get (files w1) q = Some Dir" by blast
  with "2.IH" m r show ?case by simp
next
  case (3 p d rest w)
  from "3.prems"(1) obtain w1 w2 where m: "os_makedirs (os_path_dirname p) w = (Inr (), w1)"
    and wr: "write_file p d w1 = (Inr (), w2)"
    and r: "write_content rest w2 = (Inr u, w')"
    by (auto split: prod.splits sum.splits)
  from os_makedirs_ok(3)[OF m] "3.prems"(2) have "fs_get (files w1) q = Some Dir" by blast
  then have "fs_get (files w2) q = Some Dir" using write_file_keeps_dir[OF wr] by blast
  with "3.IH" m wr r show ?case by simp
qed

lemma write_content_keeps_file:
  "write_content c w = (Inr u, w') \<Longrightarrow> fs_get (files w) q = Some (File d)
     \<Longrightarrow> \<forall>(p, v)\<in>set c. normpath p = q \<longrightarrow> v = Some d
     \<Longrightarrow> fs_get (files w') q = Some (File d)"
proof (induction c w rule: write_content.induct)
  case (1 w)
  then show ?case by simp
next
  case (2 p rest w)
  from "2.prems"(1) obtain w1 where m: "os_makedirs p w = (Inr (), w1)"
    and r: "write_content rest w1 = (Inr u, w')"
    by (auto split: prod.splits sum.splits)
  from os_makedirs_ok(3)[OF m] "2.prems"(2) have "fs_get (files w1) q = Some (File d)" by blast
  moreover from "2.prems"(3) have "\<forall>(p, v)\<in>set rest. normpath p = q \<longrightarrow> v = Some d" by auto
  ultimately show ?case using "2.IH" m r by simp
next
  case (3 p d' rest w)
  from "3.prems"(1) obtain w1 w2 where m: "os_makedirs (os_path_dirname p) w = (Inr (), w1)"
    and wr: "write_file p d' w1 = (Inr (), w2)"
    and r: "write_content rest w2 = (Inr u, w')"
    by (auto split: prod.splits sum.splits)
  from os_makedirs_ok(3)[OF m] "3.prems"(2) have f1: "fs_get (files w1) q = Some (File d)" by blast
  have "fs_get (files w2) q = Some (File d)"
  proof (cases "normpath p = q")
    case True
    with "3.prems"(3) have "d' = d" by auto
    with True write_file_ok(1)[OF wr] show ?thesis by simp
  next
    case False
    then show ?thesis using write_file_ok(3)[OF wr, of q] f1 by simp
  qed
  moreover from "3.prems"(3) have "\<forall>(p, v)\<in>set rest. normpath p = q \<longrightarrow> v = Some d" by auto
  ultimately show ?case using "3.IH" m wr r by simp
qed

lemma write_content_dir:
  "write_content c w = (Inr u, w') \<Longrightarrow> (p, None) \<in> set c
     \<Longrightarrow> fs_get (files w') (normpath p) = Some Dir"
proof (induction c w rule: write_content.induct)
  case (1 w)
  then show ?case by simp
next
  case (2 p0 rest w)
  from "2.prems"(1) obtain w1 where m: "os_makedirs p0 w = (Inr (), w1)"
    and r: "write_content rest w1 = (Inr u, w')"
    by (auto split: prod.splits sum.splits)
  show ?case
  proof (cases "(p, None) \<in> set rest")
    case True
    then show ?thesis using "2.IH" m r by simp
  next
    case False
    with "2.prems"(2) have "p = p0" by simp
    then have "fs_get (files w1) (normpath p) = Some Dir" using os_makedirs_ok(1)[OF m] by simp
    then show ?thesis using write_content_keeps_dir[OF r] by blast
  qed
next
  case (3 p0 d rest w)
  from "3.prems"(1) obtain w1 w2 where m: "os_makedirs (os_path_dirname p0) w = (Inr (), w1)"
    and wr: "write_file p0 d w1 = (Inr (), w2)"
    and r: "write_content rest w2 = (Inr u, w')"
    by (auto split: prod.splits sum.splits)
  from "3.prems"(2) have "(p, None) \<in> set rest" by simp
  then show ?case using "3.IH" m wr r by simp
qed

lemma write_content_file:
  "write_content c w = (Inr u, w') \<Longrightarrow> (p, Some d) \<in> set c
     \<Longrightarrow> \<forall>(p', v')\<in>set c. normpath p' = normpath p \<longrightarrow> v' = Some d
     \<Longrightarrow> fs_get (files w') (normpath p) = Some (File d)"
proof (induction c w rule: write_content.induct)
  case (1 w)
  then show ?case by simp
next
  case (2 p0 rest w)
  from "2.prems"(1) obtain w1 where m: "os_makedirs p0 w = (Inr (), w1)"
    and r: "write_content rest w1 = (Inr u, w')"
    by (auto split: prod.splits sum.splits)
  from "2.prems"(2) have "(p, Some d) \<in> set rest" by simp
  moreover from "2.prems"(3) have "\<forall>(p', v')\<in>set rest. normpath p' = normpath p \<longrightarrow> v' = Some d"
    by auto
  ultimately show ?case using "2.IH" m r by simp
next
  case (3 p0 d0 rest w)
  from "3.prems"(1) obtain w1 w2 where m: "os_makedirs (os_path_dirname p0) w = (Inr (), w1)"
    and wr: "write_file p0 d0 w1 = (Inr (), w2)"
    and r: "write_content rest w2 = (Inr u, w')"
    by (auto split: prod.splits sum.splits)
  from "3.prems"(3) have rest: "\<forall>(p', v')\<in>set rest. normpath p' = normpath p \<longrightarrow> v' = Some d"
    by auto
  show ?case
  proof (cases "(p, Some d) \<in> set rest")
    case True
    then show ?thesis using "3.IH" m wr r rest by simp
  next
    case False
    with "3.prems"(2) have "p = p0" "d = d0" by auto
    then have "fs_get (files w2) (normpath p) = Some (File d)" using write_file_ok(1)[OF wr] by simp
    then show ?thesis using write_content_keeps_file[OF r _ rest] by blast
  qed
qed

lemma write_content_trace:
  "write_content c w = (r, w') \<Longrightarrow> trace w' = trace w"
proof (induction c w rule: write_content.induct)
  case (1 w)
  then show ?case by simp
next
  case (2 p rest w)
  show ?case
  proof (cases "os_makedirs p w")
    case (Pair a w1)
    show ?thesis
    proof (cases a)
      case (Inl e)
      with Pair "2.prems" show ?thesis
        by (auto simp: os_makedirs_def split: if_splits sum.splits)
    next
      case (Inr x)
      with Pair "2.prems" "2.IH" os_makedirs_ok(2)[of p w x w1] show ?thesis by auto
    qed
  qed
next
  case (3 p d rest w)
  show ?case
  proof (cases "os_makedirs (os_path_dirname p) w")
    case (Pair a w1)
    show ?thesis
    proof (cases a)
      case (Inl e)
      with Pair "3.prems" show ?thesis
        by (auto simp: os_makedirs_def split: if_splits sum.splits)
    next
      case (Inr x)
      note mk = this
      have t1: "trace w1 = trace w" using os_makedirs_ok(2)[of "os_path_dirname p" w x w1] Pair Inr by simp
      show ?thesis
      proof (cases "write_file p d w1")
        case (Pair b w2)
        note wf = this
        show ?thesis
        proof (cases b)
          case (Inl e)
          with wf have "w2 = w1"
            by (auto simp: write_file_def split: if_splits option.splits node.splits)
          with Inl wf \<open>os_makedirs (os_path_dirname p) w = (a, w1)\<close> mk "3.prems" t1 show ?thesis by auto
        next
          case (Inr y)
          with wf \<open>os_makedirs (os_path_dirname p) w = (a, w1)\<close> mk "3.prems" t1
            "3.IH" write_file_ok(2)[of p d w1 y w2] show ?thesis by auto
        qed
      qed
    qed
  qed
qed

text \<open>Paths below a directory.\<close>

lemma split_char_nonempty: "split_char sep s \<noteq> []"
  by (induction s) (auto split: list.splits)

lemma split_char_no_sep: "sep \<notin> set s \<Longrightarrow> split_char sep s = [s]"
  by (induction s) auto

lemma split_char_append:
  "sep \<notin> set nm \<Longrightarrow> split_char sep (t @ sep # nm) = split_char sep t @ [nm]"
proof (induction t)
  case Nil
  then show ?case by (simp add: split_char_no_sep)
next
  case (Cons c t)
  then show ?case
    using split_char_nonempty[of sep t] by (cases "split_char sep t") auto
qed

lemma norm_comps_snoc:
  "file_name nm \<Longrightarrow> norm_comps ab acc (xs @ [nm]) = norm_comps ab acc xs @ [nm]"
  by (induction xs arbitrary: acc) (auto simp: file_name_def)

lemma norm_comps_snoc_empty:
  "norm_comps ab acc (xs @ [[]]) = norm_comps ab acc xs"
  by (induction xs arbitrary: acc) auto

lemma startswith_append_left: "t \<noteq> [] \<Longrightarrow> startswith (t @ x) ''/'' = startswith t ''/''"
  by (cases t) (auto simp: startswith_def)

lemma normpath_child:
  assumes "file_name nm" and "t \<noteq> []"
  shows "normpath (os_path_join t nm) = (fst (normpath t), snd (normpath t) @ [nm])"
proof -
  from assms(1) have ns: "CHR ''/'' \<notin> set nm" and ne: "nm \<noteq> []" by (auto simp: file_name_def)
  from ns ne have nst: "\<not> startswith nm ''/''"
    by (cases nm) (auto simp: startswith_def)
  show ?thesis
  proof (cases "endswith t ''/''")
    case True
    then obtain t' where t: "t = t' @ ''/''"
      by (auto simp: endswith_def) (metis append_take_drop_id)
    have j: "os_path_join t nm = t' @ CHR ''/'' # nm"
      using True nst t by (simp add: os_path_join_def)
    have s1: "split_char CHR ''/'' (t' @ CHR ''/'' # nm) = split_char CHR ''/'' t' @ [nm]"
      by (rule split_char_append[OF ns])
    have s2: "split_char CHR ''/'' t = split_char CHR ''/'' t' @ [[]]"
      using split_char_append[of "CHR ''/''" "[]" t'] t by simp
    have a: "startswith (t' @ CHR ''/'' # nm) ''/'' = startswith t ''/''"
      using t by (cases t') (auto simp: startswith_def)
    show ?thesis
      unfolding j normpath_def a s1 s2
      by (simp add: norm_comps_snoc[OF assms(1)] norm_comps_snoc_empty)
  next
    case False
    have j: "os_path_join t nm = t @ CHR ''/'' # nm"
      using False nst assms(2) by (simp add: os_path_join_def)
    have s1: "split_char CHR ''/'' (t @ CHR ''/'' # nm) = split_char CHR ''/'' t @ [nm]"
      by (rule split_char_append[OF ns])
    have a: "startswith (t @ CHR ''/'' # nm) ''/'' = startswith t ''/''"
      by (rule startswith_append_left[OF assms(2)])
    show ?thesis
      unfolding j normpath_def a s1
      by (simp add: norm_comps_snoc[OF assms(1)])
  qed
qed

lemma split_char_append_gen:
  "split_char sep (a @ sep # b) = split_char sep a @ split_char sep b"
proof (induction a)
  case Nil
  then show ?case by simp
next
  case (Cons c a)
  then show ?case
    using split_char_nonempty[of sep a] by (cases "split_char sep a") auto
qed

lemma norm_comps_append_proper:
  "list_all file_name ys \<Longrightarrow> norm_comps ab acc (xs @ ys) = norm_comps ab acc xs @ ys"
proof (induction ys rule: rev_induct)
  case Nil
  then show ?case by simp
next
  case (snoc y ys)
  then have y: "file_name y" and ys: "list_all file_name ys" by simp_all
  have "norm_comps ab acc (xs @ ys @ [y]) = norm_comps ab acc ((xs @ ys) @ [y])" by simp
  also have "\<dots> = norm_comps ab acc (xs @ ys) @ [y]" by (rule norm_comps_snoc[OF y])
  also have "\<dots> = (norm_comps ab acc xs @ ys) @ [y]" using snoc.IH[OF ys] by simp
  finally show ?case by simp
qed

lemma proper_not_absolute:
  assumes "list_all file_name (split_char CHR ''/'' r)"
  shows "\<not> startswith r ''/''"
proof (cases r)
  case Nil
  then show ?thesis by (simp add: startswith_def)
next
  case (Cons c cs)
  with assms show ?thesis
    by (auto simp: startswith_def file_name_def split: if_splits)
qed

lemma normpath_empty: "normpath [] = (False, [])"
  by (simp add: normpath_def startswith_def)

lemma normpath_slash:
  assumes "t \<noteq> []"
  shows "normpath (t @ ''/'') = normpath t"
proof -
  have "split_char CHR ''/'' (t @ ''/'') = split_char CHR ''/'' t @ [[]]"
    using split_char_append_gen[of "CHR ''/''" t "[]"] by simp
  moreover have "startswith (t @ ''/'') ''/'' = startswith t ''/''"
    by (rule startswith_append_left[OF assms])
  ultimately show ?thesis by (simp add: normpath_def norm_comps_snoc_empty)
qed

lemma normpath_under:
  assumes "r \<noteq> []" and p: "list_all file_name (split_char CHR ''/'' r)" and "t \<noteq> []"
  shows "normpath (t @ CHR ''/'' # r) = (fst (normpath t), snd (normpath t) @ split_char CHR ''/'' r)"
proof -
  have "split_char CHR ''/'' (t @ CHR ''/'' # r) = split_char CHR ''/'' t @ split_char CHR ''/'' r"
    by (rule split_char_append_gen)
  moreover have "startswith (t @ CHR ''/'' # r) ''/'' = startswith t ''/''"
    by (rule startswith_append_left[OF assms(3)])
  ultimately show ?thesis
    by (simp add: normpath_def norm_comps_append_proper[OF p])
qed

lemma dest_proper:
  assumes "proper_rel r"
  shows "normpath (os_path_join t r) = (fst (normpath t), snd (normpath t) @ rel_comps r)"
proof (cases "r = []")
  case True
  have "normpath (os_path_join t []) = normpath t"
  proof (cases "t = [] \<or> endswith t ''/''")
    case True
    then show ?thesis by (simp add: os_path_join_def startswith_def)
  next
    case False
    then have "os_path_join t [] = t @ ''/''" by (simp add: os_path_join_def startswith_def)
    with False normpath_slash[of t] show ?thesis by simp
  qed
  with True show ?thesis by (simp add: rel_comps_def)
next
  case False
  with assms have p: "list_all file_name (split_char CHR ''/'' r)"
    by (simp add: proper_rel_def rel_comps_def)
  note na = proper_not_absolute[OF p]
  show ?thesis
  proof (cases "t = []")
    case True
    have "normpath r = (False, split_char CHR ''/'' r)"
      using na norm_comps_append_proper[OF p, of False "[]" "[]"] by (simp add: normpath_def)
    with True na False show ?thesis
      by (simp add: os_path_join_def normpath_empty rel_comps_def)
  next
    case tne: False
    show ?thesis
    proof (cases "endswith t ''/''")
      case True
      then obtain t' where t: "t = t' @ ''/''"
        by (auto simp: endswith_def) (metis append_take_drop_id)
      have j: "os_path_join t r = t' @ CHR ''/'' # r"
        using True na t by (simp add: os_path_join_def)
      have s1: "split_char CHR ''/'' (t' @ CHR ''/'' # r)
                  = split_char CHR ''/'' t' @ split_char CHR ''/'' r"
        by (rule split_char_append_gen)
      have s2: "split_char CHR ''/'' t = split_char CHR ''/'' t' @ [[]]"
        using split_char_append_gen[of "CHR ''/''" t' "[]"] t by simp
      have a: "startswith (t' @ CHR ''/'' # r) ''/'' = startswith t ''/''"
        using t by (cases t') (auto simp: startswith_def)
      show ?thesis
        unfolding j normpath_def a s1 s2
        using False by (simp add: norm_comps_append_proper[OF p] norm_comps_snoc_empty rel_comps_def)
    next
      case nf: False
      have j: "os_path_join t r = t @ CHR ''/'' # r"
        using nf na tne by (simp add: os_path_join_def)
      show ?thesis
        unfolding j using normpath_under[OF False p tne] False by (simp add: rel_comps_def)
    qed
  qed
qed

subsection \<open>Rejection of archives with a setup script\<close>

lemma scan_setup_py_raises:
  "\<exists>info\<in>set tar. rel_name info = ''setup.py''
     \<Longrightarrow> \<exists>e. scan_entries t tar deps content = Inl e"
  by (induction tar arbitrary: deps content) (auto split: option.splits sum.splits)

lemma scan_setup_py_readable:
  "\<exists>info\<in>set tar. rel_name info = ''setup.py'' \<Longrightarrow> \<forall>info\<in>set tar. readable info
     \<Longrightarrow> scan_entries t tar deps content = Inl NotUpipCompatible"
proof (induction tar arbitrary: deps content)
  case Nil
  then show ?case by simp
next
  case (Cons a tar)
  show ?case
  proof (cases "rel_name a = ''setup.py''")
    case True
    then show ?thesis by simp
  next
    case False
    from Cons.prems False have ex: "\<exists>info\<in>set tar. rel_name info = ''setup.py''" by auto
    from Cons.prems have all: "\<forall>info\<in>set tar. readable info" and ra: "readable a" by auto
    have ih: "\<And>deps content. scan_entries t tar deps content = Inl NotUpipCompatible"
      using Cons.IH[OF ex all] .
    from ra False show ?thesis
      by (auto simp: ih readable_def is_requires_def split: option.splits sum.splits)
  qed
qed

text \<open>
  C1, as amended. When the archive behind the URL has an entry whose root-relative path
  is exactly \<^verbatim>\<open>setup.py\<close>, the call raises and leaves the file system as it was: the only
  thing that happened is the download. The exception is \<open>NotUpipCompatible\<close> when
  every entry of the archive is readable; an unreadable \<^verbatim>\<open>requires.txt\<close> entry before the
  script raises first. It does not matter how many entries precede the script.
\<close>

theorem root_setup_py_rejected:
  assumes "net E (trace w) u = Inr (TarGz tar)"
      and "\<exists>info\<in>set tar. rel_name info = ''setup.py''"
  shows "\<exists>e. install_single_upip_compatible_from_url E project_name u target_dir w
               = (Inl e, w\<lparr>trace := trace w @ [Urlopen u]\<rparr>)
             \<and> ((\<forall>info\<in>set tar. readable info) \<longrightarrow> e = NotUpipCompatible)"
proof -
  obtain e where e: "scan_entries target_dir tar [] [] = Inl e"
    using scan_setup_py_raises[OF assms(2)] by blast
  have "(\<forall>info\<in>set tar. readable info) \<longrightarrow> e = NotUpipCompatible"
    using scan_setup_py_readable[OF assms(2), of target_dir "[]" "[]"] e by auto
  moreover have "install_single_upip_compatible_from_url E project_name u target_dir w
               = (Inl e, w\<lparr>trace := trace w @ [Urlopen u]\<rparr>)"
    using assms(1) e
    by (simp add: install_single_upip_compatible_from_url_def urlopen_def tarfile_open_def)
  ultimately show ?thesis by blast
qed

theorem root_setup_py_rejected_witness:
  "install_single_upip_compatible_from_url sample_env ''pkg'' ''https://files/rejected.tar.gz''
     ''lib'' empty_world
   = (Inl NotUpipCompatible, empty_world\<lparr>trace := [Urlopen ''https://files/rejected.tar.gz'']\<rparr>)"
proof -
  have h1: "net sample_env (trace empty_world) ''https://files/rejected.tar.gz''
              = Inr (TarGz rejected_tar)"
    by code_simp
  have h2: "\<exists>info\<in>set rejected_tar. rel_name info = ''setup.py''"
    by code_simp
  have h3: "\<forall>info\<in>set rejected_tar. readable info"
    by code_simp
  have h4: "trace empty_world = []"
    by (simp add: empty_world_def)
  from root_setup_py_rejected[OF h1 h2, of "''pkg''" "''lib''"] h3 h4 show ?thesis
    by auto
qed

text \<open>
  C1 as stated fails: a \<^verbatim>\<open>setup.py\<close> below the distribution root, here
  \<^verbatim>\<open>examples/setup.py\<close>, does not reject the archive, and the file is written; and a
  \<^verbatim>\<open>requires.txt\<close> entry that is a directory, met before the script, raises \<open>TypeError\<close>.
\<close>

theorem nested_setup_py_counterexample:
  "rel_name (file_entry ''pkg-1.0/examples/setup.py'' ''x'') = ''examples/setup.py''
   \<and> install_single_upip_compatible_from_url sample_env ''pkg'' ''https://files/nested.tar.gz''
        ''lib'' empty_world
      = (Inr [],
         \<lparr>files = [((False, [''lib'']), Dir), ((False, [''lib'', ''examples'']), Dir),
                   ((False, [''lib'', ''examples'', ''setup.py'']), File ''x'')],
          trace = [Urlopen ''https://files/nested.tar.gz'']\<rparr>)
   \<and> install_single_upip_compatible_from_url sample_env ''pkg''
        ''https://files/unreadable.tar.gz'' ''lib'' empty_world
      = (Inl TypeError, \<lparr>files = [], trace = [Urlopen ''https://files/unreadable.tar.gz'']\<rparr>)"
  by code_simp

subsection \<open>Installation of an archive\<close>

lemma read_deps_lines:
  "read_deps ls = Inr ds
     \<Longrightarrow> ds = map strip (filter (\<lambda>l. strip l \<noteq> [] \<and> \<not> startswith (strip l) ''#'') ls)"
  by (induction ls arbitrary: ds) (auto simp: decode_def split: if_splits sum.splits)

lemma in_update:
  "(p, v) \<in> set (AList.update k x al) \<Longrightarrow> (p, v) = (k, x) \<or> (p, v) \<in> set al"
  by (induction al) (auto split: if_splits)

lemma scan_deps:
  "scan_entries t tar deps0 c0 = Inr (deps, c)
     \<Longrightarrow> deps = deps0 @ concat (map declared_deps (filter is_requires tar))"
proof (induction tar arbitrary: deps0 c0)
  case Nil
  then show ?case by simp
next
  case (Cons a tar)
  show ?case
  proof (cases "is_requires a")
    case True
    with Cons.prems obtain d ds where d: "extractfile a = Some d"
      and ds: "read_deps (readlines d) = Inr ds"
      and r: "scan_entries t tar (deps0 @ ds) c0 = Inr (deps, c)"
      by (auto simp: is_requires_def split: if_splits option.splits sum.splits)
    have "declared_deps a = ds"
      using read_deps_lines[OF ds] d by (simp add: declared_deps_def)
    with Cons.IH[OF r] True show ?thesis by simp
  next
    case False
    with Cons.prems obtain c1 where "scan_entries t tar deps0 c1 = Inr (deps, c)"
      by (auto simp: is_requires_def split: if_splits option.splits sum.splits)
    with Cons.IH False show ?thesis by simp
  qed
qed

lemma scan_no_setup_py:
  "scan_entries t tar deps0 c0 = Inr (deps, c) \<Longrightarrow> \<forall>info\<in>set tar. rel_name info \<noteq> ''setup.py''"
  by (induction tar arbitrary: deps0 c0) (auto split: if_splits option.splits sum.splits)

text \<open>What one entry does to the dictionary when the scan goes on.\<close>

lemma scan_step:
  assumes "scan_entries t (a # tar) deps0 c0 = Inr (deps, c)"
  shows "\<exists>deps1. scan_entries t tar deps1
           (if stageable a then AList.update (os_path_join t (rel_name a)) (staged_value a) c0
            else c0) = Inr (deps, c)"
proof (cases "str_in ''.egg-info'' (rel_name a)")
  case True
  then have "\<not> stageable a" by (simp add: stageable_def)
  with assms True show ?thesis
    by (auto split: if_splits option.splits sum.splits)
next
  case False
  note ne = no_egg_info[OF False]
  show ?thesis
  proof (cases "info_isdir a")
    case True
    with assms False ne show ?thesis
      by (auto simp: stageable_def staged_value_def split: if_splits)
  next
    case nd: False
    show ?thesis
    proof (cases "info_isfile a")
      case True
      with assms False ne nd show ?thesis
        by (auto simp: stageable_def staged_value_def split: if_splits option.splits)
    next
      case False
      with assms \<open>\<not> str_in ''.egg-info'' (rel_name a)\<close> ne nd show ?thesis
        by (auto simp: stageable_def split: if_splits)
    qed
  qed
qed

lemma scan_content_from:
  "scan_entries t tar deps0 c0 = Inr (deps, c) \<Longrightarrow> (p, v) \<in> set c
     \<Longrightarrow> (p, v) \<in> set c0
         \<or> (\<exists>e\<in>set tar. stageable e \<and> os_path_join t (rel_name e) = p \<and> staged_value e = v)"
proof (induction tar arbitrary: deps0 c0)
  case Nil
  then show ?case by simp
next
  case (Cons a tar)
  from scan_step[OF Cons.prems(1)] obtain deps1 where
    r: "scan_entries t tar deps1
           (if stageable a then AList.update (os_path_join t (rel_name a)) (staged_value a) c0
            else c0) = Inr (deps, c)" by blast
  from Cons.IH[OF r Cons.prems(2)] show ?case
    by (auto dest: in_update split: if_splits)
qed

lemma scan_content_has:
  "scan_entries t tar deps0 c0 = Inr (deps, c)
     \<Longrightarrow> \<forall>e\<in>set tar. stageable e \<and> os_path_join t (rel_name e) = k \<longrightarrow> staged_value e = v
     \<Longrightarrow> map_of c k
           = (if \<exists>e\<in>set tar. stageable e \<and> os_path_join t (rel_name e) = k then Some v
              else map_of c0 k)"
proof (induction tar arbitrary: deps0 c0)
  case Nil
  then show ?case by simp
next
  case (Cons a tar)
  from scan_step[OF Cons.prems(1)] obtain deps1 where
    r: "scan_entries t tar deps1
           (if stageable a then AList.update (os_path_join t (rel_name a)) (staged_value a) c0
            else c0) = Inr (deps, c)" by blast
  from Cons.prems(2) have
    "\<forall>e\<in>set tar. stageable e \<and> os_path_join t (rel_name e) = k \<longrightarrow> staged_value e = v"
    by simp
  from Cons.IH[OF r this] Cons.prems(2) show ?case
    by (auto simp: update_conv')
qed

lemma scan_distinct:
  "scan_entries t tar deps0 c0 = Inr (deps, c) \<Longrightarrow> distinct (map fst c0) \<Longrightarrow> distinct (map fst c)"
proof (induction tar arbitrary: deps0 c0)
  case Nil
  then show ?case by simp
next
  case (Cons a tar)
  from scan_step[OF Cons.prems(1)] obtain deps1 where
    r: "scan_entries t tar deps1
           (if stageable a then AList.update (os_path_join t (rel_name a)) (staged_value a) c0
            else c0) = Inr (deps, c)" by blast
  have "distinct (map fst (if stageable a
          then AList.update (os_path_join t (rel_name a)) (staged_value a) c0 else c0))"
    using Cons.prems(2) by (simp add: distinct_update)
  from Cons.IH[OF r this] show ?case .
qed

text \<open>The dictionary holds, for a key, what the last entry recorded under it.\<close>

lemma scan_content_last:
  "scan_entries t tar deps0 c0 = Inr (deps, c) \<Longrightarrow> i < length tar \<Longrightarrow> stageable (tar ! i)
     \<Longrightarrow> os_path_join t (rel_name (tar ! i)) = k \<Longrightarrow> staged_value (tar ! i) = v
     \<Longrightarrow> \<forall>j. i < j \<and> j < length tar \<and> stageable (tar ! j) \<and> os_path_join t (rel_name (tar ! j)) = k
           \<longrightarrow> staged_value (tar ! j) = v
     \<Longrightarrow> map_of c k = Some v"
proof (induction tar arbitrary: deps0 c0 i)
  case Nil
  then show ?case by simp
next
  case (Cons a tar)
  from scan_step[OF Cons.prems(1)] obtain deps1 where
    r: "scan_entries t tar deps1
           (if stageable a then AList.update (os_path_join t (rel_name a)) (staged_value a) c0
            else c0) = Inr (deps, c)" by blast
  show ?case
  proof (cases i)
    case 0
    have later: "\<forall>e\<in>set tar. stageable e \<and> os_path_join t (rel_name e) = k \<longrightarrow> staged_value e = v"
    proof (intro ballI impI)
      fix e assume "e \<in> set tar" and s: "stageable e \<and> os_path_join t (rel_name e) = k"
      then obtain j where "j < length tar" "tar ! j = e" by (auto simp: in_set_conv_nth)
      with Cons.prems(6)[rule_format, of "Suc j"] 0 s show "staged_value e = v" by simp
    qed
    from scan_content_has[OF r later] Cons.prems(3,4,5) 0 show ?thesis
      by (simp add: update_conv')
  next
    case (Suc i')
    have "\<forall>j. i' < j \<and> j < length tar \<and> stageable (tar ! j) \<and> os_path_join t (rel_name (tar ! j)) = k
           \<longrightarrow> staged_value (tar ! j) = v"
    proof (intro allI impI)
      fix j assume "i' < j \<and> j < length tar \<and> stageable (tar ! j) \<and> os_path_join t (rel_name (tar ! j)) = k"
      with Cons.prems(6)[rule_format, of "Suc j"] Suc show "staged_value (tar ! j) = v" by simp
    qed
    with Cons.IH[OF r, of i'] Cons.prems(2-5) Suc show ?thesis by simp
  qed
qed

text \<open>
  C3, as amended. When the call returns, the dependency list is, in archive order, the
  stripped lines, neither empty nor comments, of the entries whose root-relative path
  contains \<^verbatim>\<open>.egg-info/requires.txt\<close> and not \<^verbatim>\<open>.egg-info/PKG-INFO\<close>. Every entry that is a
  directory or a regular file, whose root-relative path is proper (relative, with file
  names as its components) and does not contain the text \<^verbatim>\<open>.egg-info\<close>, appears under the
  target directory at its root-relative path, a directory as a directory and a regular
  file with its bytes, provided that every entry with the same destination and other
  content comes earlier in the archive under the same root-relative path. No entry is
  \<^verbatim>\<open>setup.py\<close> at the root, and the only request made is the download. Nothing is said
  here of an entry whose root-relative path is absolute or has a \<^verbatim>\<open>..\<close> component.
\<close>

theorem staged_entries_installed:
  assumes "net E (trace w) u = Inr (TarGz tar)"
      and "install_single_upip_compatible_from_url E project_name u target_dir w = (Inr deps, w')"
  shows "deps = concat (map declared_deps (filter is_requires tar))
       \<and> (\<forall>i<length tar.
             stageable (tar ! i) \<and> proper_rel (rel_name (tar ! i))
             \<and> (\<forall>j<length tar.
                   stageable (tar ! j) \<and> dest target_dir (tar ! j) = dest target_dir (tar ! i)
                   \<and> staged_value (tar ! j) \<noteq> staged_value (tar ! i)
                   \<longrightarrow> j < i \<and> rel_name (tar ! j) = rel_name (tar ! i))
             \<longrightarrow> dest target_dir (tar ! i)
                   = (fst (normpath target_dir),
                      snd (normpath target_dir) @ rel_comps (rel_name (tar ! i)))
                 \<and> under (normpath target_dir) (dest target_dir (tar ! i))
                 \<and> fs_get (files w') (dest target_dir (tar ! i))
                     = Some (node_of (staged_value (tar ! i))))
       \<and> (\<forall>info\<in>set tar. rel_name info \<noteq> ''setup.py'')
       \<and> trace w' = trace w @ [Urlopen u]"
proof -
  let ?w1 = "w\<lparr>trace := trace w @ [Urlopen u]\<rparr>"
  from assms obtain c where sc: "scan_entries target_dir tar [] [] = Inr (deps, c)"
    and wc: "write_content c ?w1 = (Inr (), w')"
    by (auto simp: install_single_upip_compatible_from_url_def urlopen_def tarfile_open_def
             split: sum.splits prod.splits)
  have d: "deps = concat (map declared_deps (filter is_requires tar))"
    using scan_deps[OF sc] by simp
  have s: "\<forall>info\<in>set tar. rel_name info \<noteq> ''setup.py''"
    using scan_no_setup_py[OF sc] .
  have t: "trace w' = trace w @ [Urlopen u]"
    using write_content_trace[OF wc] by simp
  have dc: "distinct (map fst c)"
    using scan_distinct[OF sc] by simp
  have f: "dest target_dir (tar ! i)
             = (fst (normpath target_dir), snd (normpath target_dir) @ rel_comps (rel_name (tar ! i)))
           \<and> under (normpath target_dir) (dest target_dir (tar ! i))
           \<and> fs_get (files w') (dest target_dir (tar ! i)) = Some (node_of (staged_value (tar ! i)))"
    if i: "i < length tar" and st: "stageable (tar ! i)" and pr: "proper_rel (rel_name (tar ! i))"
      and ag: "\<forall>j<length tar.
                   stageable (tar ! j) \<and> dest target_dir (tar ! j) = dest target_dir (tar ! i)
                   \<and> staged_value (tar ! j) \<noteq> staged_value (tar ! i)
                   \<longrightarrow> j < i \<and> rel_name (tar ! j) = rel_name (tar ! i)"
    for i
  proof -
    let ?e = "tar ! i"
    let ?k = "os_path_join target_dir (rel_name ?e)"
    have dp: "dest target_dir ?e
                = (fst (normpath target_dir), snd (normpath target_dir) @ rel_comps (rel_name ?e))"
      using dest_proper[OF pr] by (simp add: dest_def)
    then have un: "under (normpath target_dir) (dest target_dir ?e)"
      by (simp add: under_def)
    have later: "\<forall>j. i < j \<and> j < length tar \<and> stageable (tar ! j)
                    \<and> os_path_join target_dir (rel_name (tar ! j)) = ?k
                  \<longrightarrow> staged_value (tar ! j) = staged_value ?e"
    proof (intro allI impI)
      fix j
      assume a: "i < j \<and> j < length tar \<and> stageable (tar ! j)
                    \<and> os_path_join target_dir (rel_name (tar ! j)) = ?k"
      then have "dest target_dir (tar ! j) = dest target_dir ?e" by (simp add: dest_def)
      with ag a show "staged_value (tar ! j) = staged_value ?e" by force
    qed
    have m: "map_of c ?k = Some (staged_value ?e)"
      by (rule scan_content_last[OF sc i st refl refl later])
    then have mem: "(?k, staged_value ?e) \<in> set c" by (rule map_of_SomeD)
    have same: "v' = staged_value ?e" if pv: "(p', v') \<in> set c" and n: "normpath p' = normpath ?k"
      for p' v'
    proof (rule ccontr)
      assume ne: "v' \<noteq> staged_value ?e"
      from scan_content_from[OF sc pv] obtain e' where e': "e' \<in> set tar" "stageable e'"
        "os_path_join target_dir (rel_name e') = p'" "staged_value e' = v'" by auto
      then obtain j where j: "j < length tar" "tar ! j = e'" by (auto simp: in_set_conv_nth)
      from e' n have "dest target_dir e' = dest target_dir ?e" by (simp add: dest_def)
      with ag j e' ne have "rel_name e' = rel_name ?e" by auto
      with e' have "p' = ?k" by simp
      with pv map_of_is_SomeI[OF dc] m have "v' = staged_value ?e" by auto
      with ne show False by simp
    qed
    have "fs_get (files w') (dest target_dir ?e) = Some (node_of (staged_value ?e))"
    proof (cases "staged_value ?e")
      case None
      with mem write_content_dir[OF wc] show ?thesis by (simp add: dest_def node_of_def)
    next
      case (Some d)
      have "\<forall>(p', v')\<in>set c. normpath p' = normpath ?k \<longrightarrow> v' = Some d"
        using same Some by auto
      with mem Some write_content_file[OF wc, of ?k d] show ?thesis
        by (simp add: dest_def node_of_def)
    qed
    with dp un show ?thesis by simp
  qed
  from d s t f show ?thesis by blast
qed

theorem staged_entries_installed_witness:
  "install_single_upip_compatible_from_url sample_env ''a'' ''https://files/a-1.0.tar.gz''
     ''lib'' empty_world
   = (Inr [''b''],
      \<lparr>files = [((False, [''lib'']), Dir), ((False, [''lib'', ''a.py'']), File ''import b'')],
       trace = [Urlopen ''https://files/a-1.0.tar.gz'']\<rparr>)
   \<and> a_tar ! 1 = file_entry ''a-1.0/a.py'' ''import b''
   \<and> dest ''lib'' (a_tar ! 1) = (False, [''lib'', ''a.py''])
   \<and> under (normpath ''lib'') (dest ''lib'' (a_tar ! 1))
   \<and> fs_get [((False, [''lib'']), Dir), ((False, [''lib'', ''a.py'']), File ''import b'')]
        (dest ''lib'' (a_tar ! 1)) = Some (File ''import b'')
   \<and> concat (map declared_deps (filter is_requires a_tar)) = [''b'']"
proof -
  let ?w' = "\<lparr>files = [((False, [''lib'']), Dir), ((False, [''lib'', ''a.py'']), File ''import b'')],
              trace = [Urlopen ''https://files/a-1.0.tar.gz'']\<rparr>"
  have h1: "net sample_env (trace empty_world) ''https://files/a-1.0.tar.gz'' = Inr (TarGz a_tar)"
    by code_simp
  have h2: "install_single_upip_compatible_from_url sample_env ''a''
              ''https://files/a-1.0.tar.gz'' ''lib'' empty_world = (Inr [''b''], ?w')"
    by code_simp
  have h3: "1 < length a_tar"
    by code_simp
  have h4: "stageable (a_tar ! 1) \<and> proper_rel (rel_name (a_tar ! 1))"
    by code_simp
  have h5: "\<forall>j<length a_tar.
              stageable (a_tar ! j) \<and> dest ''lib'' (a_tar ! j) = dest ''lib'' (a_tar ! 1)
              \<and> staged_value (a_tar ! j) \<noteq> staged_value (a_tar ! 1)
              \<longrightarrow> j < 1 \<and> rel_name (a_tar ! j) = rel_name (a_tar ! 1)"
  proof (rule allI, rule impI)
    fix j assume "j < length a_tar"
    then have "j \<in> {0, 1, 2, 3}" by (auto simp: a_tar_def)
    moreover have "\<not> stageable (a_tar ! 2)"
      by code_simp
    moreover have "\<not> stageable (a_tar ! 3)"
      by code_simp
    moreover have "dest ''lib'' (a_tar ! 0) \<noteq> dest ''lib'' (a_tar ! 1)"
      by code_simp
    ultimately show "stageable (a_tar ! j) \<and> dest ''lib'' (a_tar ! j) = dest ''lib'' (a_tar ! 1)
              \<and> staged_value (a_tar ! j) \<noteq> staged_value (a_tar ! 1)
              \<longrightarrow> j < 1 \<and> rel_name (a_tar ! j) = rel_name (a_tar ! 1)"
      by auto
  qed
  have h6: "node_of (staged_value (a_tar ! 1)) = File ''import b''"
    by code_simp
  have h7: "a_tar ! 1 = file_entry ''a-1.0/a.py'' ''import b''"
    by (simp add: a_tar_def)
  have h8: "(fst (normpath ''lib''), snd (normpath ''lib'') @ rel_comps (rel_name (a_tar ! 1)))
              = (False, [''lib'', ''a.py''])"
    by code_simp
  note T = staged_entries_installed[OF h1 h2]
  note B = T[THEN conjunct2, THEN conjunct1, THEN spec, THEN mp, OF h3, THEN mp,
             OF conjI[OF h4[THEN conjunct1] conjI[OF h4[THEN conjunct2] h5]]]
  have C: "files ?w' = [((False, [''lib'']), Dir), ((False, [''lib'', ''a.py'']), File ''import b'')]"
    by simp
  show ?thesis
    apply (intro conjI)
         apply (rule h2)
        apply (rule h7)
       apply (rule trans[OF B[THEN conjunct1] h8])
      apply (rule B[THEN conjunct2, THEN conjunct1])
     apply (rule B[THEN conjunct2, THEN conjunct2, unfolded h6 C])
    apply (rule T[THEN conjunct1, symmetric])
    done
qed

text \<open>
  C3 as stated fails. An entry that is neither a directory nor a regular file, here a
  link, is not written, and neither is a file whose name merely contains the text
  \<^verbatim>\<open>.egg-info\<close>. Of two entries with the same path only the bytes of the later one are on
  disk. And an entry whose root-relative path is absolute, \<^verbatim>\<open>/etc/passwd\<close>, is written
  outside the target directory.
\<close>

theorem archive_entries_counterexample:
  "link_tar = [link_entry ''pkg-1.0/link'', file_entry ''pkg-1.0/notes.egg-info.txt'' ''n'']
   \<and> install_single_upip_compatible_from_url sample_env ''pkg'' ''https://files/link.tar.gz''
        ''lib'' empty_world
      = (Inr [], \<lparr>files = [], trace = [Urlopen ''https://files/link.tar.gz'']\<rparr>)
   \<and> rel_name (link_entry ''pkg-1.0/link'') = ''link''
   \<and> fs_get [] (normpath (os_path_join ''lib'' ''link'')) = None
   \<and> rel_name (file_entry ''pkg-1.0/notes.egg-info.txt'' ''n'') = ''notes.egg-info.txt''
   \<and> fs_get [] (normpath (os_path_join ''lib'' ''notes.egg-info.txt'')) = None
   \<and> dup_tar = [file_entry ''pkg-1.0/m.py'' ''old'', file_entry ''pkg-1.0/m.py'' ''new'']
   \<and> install_single_upip_compatible_from_url sample_env ''pkg'' ''https://files/dup.tar.gz''
        ''lib'' empty_world
      = (Inr [],
         \<lparr>files = [((False, [''lib'']), Dir), ((False, [''lib'', ''m.py'']), File ''new'')],
          trace = [Urlopen ''https://files/dup.tar.gz'']\<rparr>)
   \<and> escape_tar = [file_entry ''pkg-1.0//etc/passwd'' ''x'']
   \<and> rel_name (file_entry ''pkg-1.0//etc/passwd'' ''x'') = ''/etc/passwd''
   \<and> install_single_upip_compatible_from_url sample_env ''pkg'' ''https://files/escape.tar.gz''
        ''lib'' empty_world
      = (Inr [],
         \<lparr>files = [((True, [''etc'']), Dir), ((True, [''etc'', ''passwd'']), File ''x'')],
          trace = [Urlopen ''https://files/escape.tar.gz'']\<rparr>)
   \<and> \<not> under (normpath ''lib'') (True, [''etc'', ''passwd''])"
  by code_simp

subsection \<open>Version resolution\<close>

lemma sorted_last_max:
  "sorted (map f xs) \<Longrightarrow> x \<in> set xs \<Longrightarrow> f x \<le> f (last xs)"
proof (induction xs)
  case Nil
  then show ?case by simp
next
  case (Cons a xs)
  show ?case
  proof (cases "xs = []")
    case True
    with Cons.prems show ?thesis by simp
  next
    case False
    then have l: "last xs \<in> set xs" by simp
    from Cons.prems(1) have s: "sorted (map f xs)" and le: "\<forall>y\<in>set xs. f a \<le> f y" by auto
    show ?thesis
    proof (cases "x = a")
      case True
      with le l False show ?thesis by simp
    next
      case False
      with Cons.prems(2) have "x \<in> set xs" by simp
      with Cons.IH[OF s] \<open>xs \<noteq> []\<close> show ?thesis by simp
    qed
  qed
qed

lemma last_sort_key:
  assumes "xs \<noteq> []"
  shows "last (sort_key f xs) \<in> set xs" and "\<forall>x\<in>set xs. f x \<le> f (last (sort_key f xs))"
proof -
  from assms have ne: "sort_key f xs \<noteq> []" by (metis length_sort length_0_conv)
  then have "last (sort_key f xs) \<in> set (sort_key f xs)" by (rule last_in_set)
  then show "last (sort_key f xs) \<in> set xs" by simp
  have "sorted (map f (sort_key f xs))" by (rule sorted_sort_key)
  from sorted_last_max[OF this] show "\<forall>x\<in>set xs. f x \<le> f (last (sort_key f xs))" by simp
qed

lemma resolve_version_max:
  "(resolve_version E req m = None
      \<longleftrightarrow> (\<forall>ver\<in>fst ` set (releases m). \<not> (req_contains E req ver \<and> release_assets m ver \<noteq> [])))
   \<and> (\<forall>v. resolve_version E req m = Some v
          \<longrightarrow> v \<in> fst ` set (releases m) \<and> req_contains E req v \<and> release_assets m v \<noteq> []
              \<and> (\<forall>u\<in>fst ` set (releases m).
                    req_contains E req u \<and> release_assets m u \<noteq> []
                    \<longrightarrow> parse_version E u \<le> parse_version E v))"
proof -
  let ?c = "filter (\<lambda>ver. req_contains E req ver \<and> length (release_assets m ver) > 0)
              (map fst (releases m))"
  have set_c: "set ?c = {ver \<in> fst ` set (releases m). req_contains E req ver \<and> release_assets m ver \<noteq> []}"
    by auto
  show ?thesis
  proof (cases "?c = []")
    case True
    then have "resolve_version E req m = None" by (simp add: resolve_version_def)
    moreover from True have "set ?c = {}" by simp
    ultimately show ?thesis using set_c by auto
  next
    case False
    then have r: "resolve_version E req m = Some (last (sort_key (parse_version E) ?c))"
      by (simp add: resolve_version_def)
    from last_sort_key[OF False, of "parse_version E"]
    have "last (sort_key (parse_version E) ?c) \<in> set ?c"
      and "\<forall>x\<in>set ?c. parse_version E x \<le> parse_version E (last (sort_key (parse_version E) ?c))"
      by blast+
    moreover from False have "set ?c \<noteq> {}" by (simp only: set_empty not_False_eq_True)
    ultimately show ?thesis using r set_c by auto
  qed
qed

text \<open>
  C4. \<open>resolve_version\<close> returns none exactly when no version key of the document has a
  non-empty release list and satisfies the requirement; otherwise it returns such a
  version, and no such version has a greater key under \<^verbatim>\<open>parse_version\<close>. For
  \<^verbatim>\<open>pkg>=1.0\<close> and the versions 0.9, 1.0, 1.2 and 2.0-beta, of which only 1.0 and 1.2 have
  release files, it returns 1.2.
\<close>

theorem resolve_version_maximum:
  "(resolve_version E req m = None
      \<longleftrightarrow> (\<forall>ver\<in>fst ` set (releases m). \<not> (req_contains E req ver \<and> release_assets m ver \<noteq> [])))
   \<and> (\<forall>v. resolve_version E req m = Some v
          \<longrightarrow> v \<in> fst ` set (releases m) \<and> req_contains E req v \<and> release_assets m v \<noteq> []
              \<and> (\<forall>u\<in>fst ` set (releases m).
                    req_contains E req u \<and> release_assets m u \<noteq> []
                    \<longrightarrow> parse_version E u \<le> parse_version E v))
   \<and> Requirement_parse sample_env ''pkg>=1.0'' = Inr pkg_req
   \<and> map (\<lambda>r. (fst r, length (snd r))) (releases four_doc)
       = [(''0.9'', 0), (''1.0'', 1), (''1.2'', 1), (''2.0-beta'', 0)]
   \<and> resolve_version sample_env pkg_req four_doc = Some ''1.2''"
proof -
  have a: "Requirement_parse sample_env ''pkg>=1.0'' = Inr pkg_req"
    by code_simp
  have b: "map (\<lambda>r. (fst r, length (snd r))) (releases four_doc)
             = [(''0.9'', 0), (''1.0'', 1), (''1.2'', 1), (''2.0-beta'', 0)]"
    by code_simp
  have c: "resolve_version sample_env pkg_req four_doc = Some ''1.2''"
    by code_simp
  from resolve_version_max[of E req m] a b c show ?thesis
    by (intro conjI) (erule conjunct1, erule conjunct2)
qed

theorem resolve_version_maximum_witness:
  "resolve_version sample_env pkg_req four_doc = Some ''1.2''
   \<and> parse_version sample_env ''1.0'' \<le> parse_version sample_env ''1.2''"
proof -
  note T = resolve_version_maximum[of sample_env pkg_req four_doc]
  have r: "resolve_version sample_env pkg_req four_doc = Some ''1.2''"
    by (rule T[THEN conjunct2, THEN conjunct2, THEN conjunct2, THEN conjunct2])
  have m: "''1.0'' \<in> fst ` set (releases four_doc)"
    by code_simp
  have s: "req_contains sample_env pkg_req ''1.0'' \<and> release_assets four_doc ''1.0'' \<noteq> []"
    by code_simp
  from T[THEN conjunct2, THEN conjunct1, THEN spec, THEN mp, OF r]
  have "\<forall>u\<in>fst ` set (releases four_doc).
          req_contains sample_env pkg_req u \<and> release_assets four_doc u \<noteq> []
          \<longrightarrow> parse_version sample_env u \<le> parse_version sample_env ''1.2''"
    by (elim conjE)
  from mp[OF bspec[OF this m] s] r show ?thesis
    by (intro conjI)
qed

subsection \<open>Metadata lookup\<close>

text \<open>The assignment of line 208 has no effect: the loop does not depend on \<open>ver_specs\<close>.\<close>

lemma fetch_loop_ver_specs:
  "fetch_loop E req all vs urls w = fetch_loop E req all vs' urls w"
proof (induction urls arbitrary: vs vs' w)
  case Nil
  then show ?case by simp
next
  case (Cons i rest)
  show ?case
    apply (simp only: fetch_loop.simps)
    apply (auto split: prod.splits sum.splits option.splits simp: Let_def intro: Cons.IH)
    done
qed

text \<open>
  C2 fails on the code. For the requirement \<^verbatim>\<open>pkg\<close>, without version clauses, and an index
  whose current version is 1.0 and which also lists the pre-release 2.0b1, the call
  resolves 2.0b1, makes a second request and returns the document of 2.0b1.
\<close>

theorem no_constraints_resolves_past_current:
  "info_version (pre_doc ''1.0'') = ''1.0''
   \<and> net sample_env [] ''https://idx2/pkg/json'' = Inr (JsonDoc (pre_doc ''1.0''))
   \<and> fetch_metadata sample_env (bare_req ''pkg'') [''https://idx2''] empty_world
       = (Inr (pre_doc ''2.0b1''),
          \<lparr>files = [],
           trace = [Urlopen ''https://idx2/pkg/json'', Urlopen ''https://idx2/pkg/2.0b1/json'']\<rparr>)"
  by code_simp

lemma all_404:
  "\<forall>i\<in>set urls. \<forall>t. net E t (i @ ''/'' @ req_project_name req @ ''/json'') = Inl (HTTPError 404)
     \<Longrightarrow> fetch_loop E req all vs urls w
         = (Inl (UserError (not_found_message (req_project_name req) all)),
            w\<lparr>trace := trace w @ map (\<lambda>i. Urlopen (i @ ''/'' @ req_project_name req @ ''/json'')) urls\<rparr>)"
proof (induction urls arbitrary: w)
  case Nil
  then show ?case by simp
next
  case (Cons i rest)
  from Cons.prems have h: "net E (trace w) (i @ ''/'' @ req_project_name req @ ''/json'') = Inl (HTTPError 404)"
    and r: "\<forall>i\<in>set rest. \<forall>t. net E t (i @ ''/'' @ req_project_name req @ ''/json'') = Inl (HTTPError 404)"
    by auto
  show ?case
    using h Cons.IH[OF r] by (simp add: urlopen_def)
qed

text \<open>
  C5. While \<^verbatim>\<open>_fetch_metadata\<close> goes through the index URLs in the order given: a 404 for
  the main document, or for the document of the resolved version, or a main document
  without a matching version, sends it to the next index; any other error of a request
  is raised at once, with no further request; and when the list is exhausted it raises
  \<open>UserError\<close> with the project name and the whole list of index URLs in the message.
  In particular, when every index answers 404 the call makes one request for each index
  and raises that error. An error that the lookup raises ends the loop of the
  Resolution Engine with that error.
\<close>

theorem index_fallback:
  "(net E (trace w) (i @ ''/'' @ req_project_name req @ ''/json'') = Inl (HTTPError 404)
      \<longrightarrow> fetch_loop E req all vs (i # rest) w
          = fetch_loop E req all vs rest
              (w\<lparr>trace := trace w @ [Urlopen (i @ ''/'' @ req_project_name req @ ''/json'')]\<rparr>))
   \<and> (\<forall>e. net E (trace w) (i @ ''/'' @ req_project_name req @ ''/json'') = Inl e \<and> e \<noteq> HTTPError 404
          \<longrightarrow> fetch_loop E req all vs (i # rest) w
              = (Inl e, w\<lparr>trace := trace w @ [Urlopen (i @ ''/'' @ req_project_name req @ ''/json'')]\<rparr>))
   \<and> (\<forall>m. net E (trace w) (i @ ''/'' @ req_project_name req @ ''/json'') = Inr (JsonDoc m)
            \<and> resolve_version E req m = None
          \<longrightarrow> fetch_loop E req all vs (i # rest) w
              = fetch_loop E req all vs rest
                  (w\<lparr>trace := trace w @ [Urlopen (i @ ''/'' @ req_project_name req @ ''/json'')]\<rparr>))
   \<and> (\<forall>m ver e.
          net E (trace w) (i @ ''/'' @ req_project_name req @ ''/json'') = Inr (JsonDoc m)
            \<and> resolve_version E req m = Some ver \<and> ver \<noteq> info_version m
            \<and> net E (trace w @ [Urlopen (i @ ''/'' @ req_project_name req @ ''/json'')])
                  (i @ ''/'' @ req_project_name req @ ''/'' @ ver @ ''/json'') = Inl e
          \<longrightarrow> fetch_loop E req all vs (i # rest) w
              = (if e = HTTPError 404
                 then fetch_loop E req all vs rest
                        (w\<lparr>trace := trace w @ [Urlopen (i @ ''/'' @ req_project_name req @ ''/json''),
                             Urlopen (i @ ''/'' @ req_project_name req @ ''/'' @ ver @ ''/json'')]\<rparr>)
                 else (Inl e,
                       w\<lparr>trace := trace w @ [Urlopen (i @ ''/'' @ req_project_name req @ ''/json''),
                             Urlopen (i @ ''/'' @ req_project_name req @ ''/'' @ ver @ ''/json'')]\<rparr>)))
   \<and> fetch_loop E req all vs [] w
       = (Inl (UserError (not_found_message (req_project_name req) all)), w)
   \<and> ((\<forall>i\<in>set index_urls. \<forall>t. net E t (i @ ''/'' @ req_project_name req @ ''/json'') = Inl (HTTPError 404))
        \<longrightarrow> fetch_metadata E req index_urls w
            = (Inl (UserError (''Could not find '' @ [CHR 0x27] @ req_project_name req @ [CHR 0x27]
                               @ '' from any of the indexes '' @ str_of_list index_urls)),
               w\<lparr>trace := trace w @ map (\<lambda>i. Urlopen (i @ ''/'' @ req_project_name req @ ''/json''))
                                      index_urls\<rparr>))
   \<and> (\<forall>st spec others e w1 fuel install_dir.
          specs_to_be_processed st = spec # others
            \<and> spec \<notin> installed_specs st \<and> spec \<notin> set (pip_specs st)
            \<and> Requirement_parse E spec = Inr req
            \<and> fetch_metadata E req index_urls w = (Inl e, w1)
          \<longrightarrow> engine_loop (Suc fuel) E install_dir index_urls st w = Some (Inl e, w1))"
proof (intro conjI allI impI)
  assume "net E (trace w) (i @ ''/'' @ req_project_name req @ ''/json'') = Inl (HTTPError 404)"
  then show "fetch_loop E req all vs (i # rest) w
          = fetch_loop E req all vs rest
              (w\<lparr>trace := trace w @ [Urlopen (i @ ''/'' @ req_project_name req @ ''/json'')]\<rparr>)"
    by (simp add: urlopen_def)
next
  fix e
  assume "net E (trace w) (i @ ''/'' @ req_project_name req @ ''/json'') = Inl e \<and> e \<noteq> HTTPError 404"
  then show "fetch_loop E req all vs (i # rest) w
              = (Inl e, w\<lparr>trace := trace w @ [Urlopen (i @ ''/'' @ req_project_name req @ ''/json'')]\<rparr>)"
    by (simp add: urlopen_def)
next
  fix m
  assume "net E (trace w) (i @ ''/'' @ req_project_name req @ ''/json'') = Inr (JsonDoc m)
            \<and> resolve_version E req m = None"
  then show "fetch_loop E req all vs (i # rest) w
              = fetch_loop E req all vs rest
                  (w\<lparr>trace := trace w @ [Urlopen (i @ ''/'' @ req_project_name req @ ''/json'')]\<rparr>)"
    using fetch_loop_ver_specs[of E req all _ rest _ vs]
    by (simp add: urlopen_def json_load_def)
next
  fix m ver e
  assume "net E (trace w) (i @ ''/'' @ req_project_name req @ ''/json'') = Inr (JsonDoc m)
            \<and> resolve_version E req m = Some ver \<and> ver \<noteq> info_version m
            \<and> net E (trace w @ [Urlopen (i @ ''/'' @ req_project_name req @ ''/json'')])
                  (i @ ''/'' @ req_project_name req @ ''/'' @ ver @ ''/json'') = Inl e"
  then show "fetch_loop E req all vs (i # rest) w
              = (if e = HTTPError 404
                 then fetch_loop E req all vs rest
                        (w\<lparr>trace := trace w @ [Urlopen (i @ ''/'' @ req_project_name req @ ''/json''),
                             Urlopen (i @ ''/'' @ req_project_name req @ ''/'' @ ver @ ''/json'')]\<rparr>)
                 else (Inl e,
                       w\<lparr>trace := trace w @ [Urlopen (i @ ''/'' @ req_project_name req @ ''/json''),
                             Urlopen (i @ ''/'' @ req_project_name req @ ''/'' @ ver @ ''/json'')]\<rparr>))"
    using fetch_loop_ver_specs[of E req all _ rest _ vs]
    by (simp add: urlopen_def json_load_def)
next
  show "fetch_loop E req all vs [] w
       = (Inl (UserError (not_found_message (req_project_name req) all)), w)"
    by simp
next
  assume "\<forall>i\<in>set index_urls. \<forall>t. net E t (i @ ''/'' @ req_project_name req @ ''/json'') = Inl (HTTPError 404)"
  from all_404[OF this]
  show "fetch_metadata E req index_urls w
            = (Inl (UserError (''Could not find '' @ [CHR 0x27] @ req_project_name req @ [CHR 0x27]
                               @ '' from any of the indexes '' @ str_of_list index_urls)),
               w\<lparr>trace := trace w @ map (\<lambda>i. Urlopen (i @ ''/'' @ req_project_name req @ ''/json''))
                                      index_urls\<rparr>)"
    by (simp add: fetch_metadata_def not_found_message_def)
next
  fix st :: engine_state and spec others e w1 fuel install_dir
  assume "specs_to_be_processed st = spec # others
            \<and> spec \<notin> installed_specs st \<and> spec \<notin> set (pip_specs st)
            \<and> Requirement_parse E spec = Inr req
            \<and> fetch_metadata E req index_urls w = (Inl e, w1)"
  then show "engine_loop (Suc fuel) E install_dir index_urls st w = Some (Inl e, w1)"
    by (simp add: loop_body_def)
qed

theorem index_fallback_witness:
  "fetch_metadata sample_env (bare_req ''a'') [''https://idx1'', ''https://idx2''] empty_world
   = (Inr (single_doc ''1.0'' ''https://files/a-1.0.tar.gz''),
      \<lparr>files = [], trace = [Urlopen ''https://idx1/a/json'', Urlopen ''https://idx2/a/json'']\<rparr>)"
proof -
  have h: "net sample_env (trace empty_world)
             (''https://idx1'' @ ''/'' @ req_project_name (bare_req ''a'') @ ''/json'')
           = Inl (HTTPError 404)"
    by code_simp
  note T = index_fallback[where E = sample_env and w = empty_world and i = "''https://idx1''"
      and req = "bare_req ''a''" and all = "[''https://idx1'', ''https://idx2'']"
      and vs = "map (\<lambda>(op, v). op @ v) (req_specs (bare_req ''a''))"
      and rest = "[''https://idx2'']", THEN conjunct1, THEN mp, OF h]
  have e: "fetch_loop sample_env (bare_req ''a'') [''https://idx1'', ''https://idx2'']
             (map (\<lambda>(op, v). op @ v) (req_specs (bare_req ''a''))) [''https://idx2'']
             (empty_world\<lparr>trace := trace empty_world
                @ [Urlopen (''https://idx1'' @ ''/'' @ req_project_name (bare_req ''a'') @ ''/json'')]\<rparr>)
           = (Inr (single_doc ''1.0'' ''https://files/a-1.0.tar.gz''),
              \<lparr>files = [], trace = [Urlopen ''https://idx1/a/json'', Urlopen ''https://idx2/a/json'']\<rparr>)"
    by code_simp
  show ?thesis
    by (simp only: fetch_metadata_def T e)
qed

subsection \<open>The Resolution Engine\<close>

lemma add_dep_specs_keeps:
  "installed_specs (add_dep_specs ds st) = installed_specs st"
  "pip_specs (add_dep_specs ds st) = pip_specs st"
  "set (specs_to_be_processed st) \<subseteq> set (specs_to_be_processed (add_dep_specs ds st))"
  by (induction ds arbitrary: st) (auto split: if_splits, force+)

lemma add_dep_specs_known:
  "set ds \<subseteq> installed_specs st \<union> set (specs_to_be_processed st) \<Longrightarrow> add_dep_specs ds st = st"
  by (induction ds arbitrary: st) auto

lemma loop_body_skip:
  "spec \<in> installed_specs st \<or> spec \<in> set (pip_specs st)
     \<Longrightarrow> loop_body E install_dir index_urls spec st w = (Inr st, w)"
  by (simp add: loop_body_def)

text \<open>What a pass of the loop can do to the three collections.\<close>

lemma loop_body_cases:
  assumes "loop_body E install_dir index_urls spec st w = (Inr st', w')"
  shows "((spec \<in> installed_specs st \<or> spec \<in> set (pip_specs st)) \<and> st' = st)
       \<or> (spec \<notin> installed_specs st \<and> spec \<notin> set (pip_specs st)
           \<and> st' = st\<lparr>pip_specs := pip_specs st @ [spec]\<rparr>)
       \<or> (spec \<notin> installed_specs st \<and> spec \<notin> set (pip_specs st)
           \<and> (\<exists>ds. st' = add_dep_specs ds (st\<lparr>installed_specs := insert spec (installed_specs st)\<rparr>)))"
  using assms
  by (auto simp: loop_body_def split: if_splits sum.splits prod.splits option.splits)

lemma loop_body_sorted_out:
  assumes "loop_body E install_dir index_urls spec st w = (Inr st', w')" and "sorted_out st"
  shows "sorted_out st'"
  using loop_body_cases[OF assms(1)] assms(2)
  by (auto simp: sorted_out_def add_dep_specs_keeps)

lemma engine_loop_sorted_out:
  "engine_loop fuel E install_dir index_urls st w = Some (Inr st', w') \<Longrightarrow> sorted_out st
     \<Longrightarrow> sorted_out st'"
proof (induction fuel arbitrary: st w)
  case 0
  then show ?case by (auto split: list.splits)
next
  case (Suc n)
  show ?case
  proof (cases "specs_to_be_processed st")
    case Nil
    with Suc.prems show ?thesis by simp
  next
    case (Cons spec rest)
    with Suc.prems(1) obtain st1 w1 where
      b: "loop_body E install_dir index_urls spec (st\<lparr>specs_to_be_processed := rest\<rparr>) w = (Inr st1, w1)"
      and r: "engine_loop n E install_dir index_urls st1 w1 = Some (Inr st', w')"
      by (auto split: prod.splits sum.splits)
    from Suc.prems(2) have "sorted_out (st\<lparr>specs_to_be_processed := rest\<rparr>)"
      by (simp add: sorted_out_def)
    from Suc.IH[OF r loop_body_sorted_out[OF b this]] show ?thesis .
  qed
qed

lemma loop_body_grows:
  assumes "loop_body E install_dir index_urls spec st w = (Inr st', w')"
  shows "installed_specs st \<subseteq> installed_specs st'"
    and "set (pip_specs st) \<subseteq> set (pip_specs st')"
    and "set (specs_to_be_processed st) \<subseteq> set (specs_to_be_processed st')"
    and "spec \<in> installed_specs st' \<union> set (pip_specs st')"
proof -
  note c = loop_body_cases[OF assms]
  show "installed_specs st \<subseteq> installed_specs st'"
    using c by (auto simp: add_dep_specs_keeps)
  show "set (pip_specs st) \<subseteq> set (pip_specs st')"
    using c by (auto simp: add_dep_specs_keeps)
  show "set (specs_to_be_processed st) \<subseteq> set (specs_to_be_processed st')"
    using c add_dep_specs_keeps(3) by fastforce
  show "spec \<in> installed_specs st' \<union> set (pip_specs st')"
    using c by (auto simp: add_dep_specs_keeps)
qed

lemma engine_loop_grows:
  "engine_loop fuel E install_dir index_urls st w = Some (Inr st', w')
     \<Longrightarrow> installed_specs st \<subseteq> installed_specs st'
         \<and> set (pip_specs st) \<subseteq> set (pip_specs st')
         \<and> set (specs_to_be_processed st) \<subseteq> installed_specs st' \<union> set (pip_specs st')"
proof (induction fuel arbitrary: st w)
  case 0
  then show ?case by (auto split: list.splits)
next
  case (Suc n)
  show ?case
  proof (cases "specs_to_be_processed st")
    case Nil
    with Suc.prems show ?thesis by simp
  next
    case (Cons spec rest)
    with Suc.prems(1) obtain st1 w1 where
      b: "loop_body E install_dir index_urls spec (st\<lparr>specs_to_be_processed := rest\<rparr>) w = (Inr st1, w1)"
      and r: "engine_loop n E install_dir index_urls st1 w1 = Some (Inr st', w')"
      by (auto split: prod.splits sum.splits)
    note g = loop_body_grows[OF b]
    note ih = Suc.IH[OF r]
    from g ih Cons show ?thesis by auto
  qed
qed

lemma fetch_loop_files:
  "files (snd (fetch_loop E req all vs urls w)) = files w"
proof (induction urls arbitrary: vs w)
  case Nil
  then show ?case by simp
next
  case (Cons i rest)
  show ?case
    by (auto simp: urlopen_def Let_def Cons.IH split: prod.splits sum.splits option.splits)
qed

lemma fetch_metadata_files:
  "fetch_metadata E req index_urls w = (r, w1) \<Longrightarrow> files w1 = files w"
proof -
  assume "fetch_metadata E req index_urls w = (r, w1)"
  then have "snd (fetch_loop E req index_urls (map (\<lambda>(op, v). op @ v) (req_specs req)) index_urls w) = w1"
    by (simp add: fetch_metadata_def)
  with fetch_loop_files[of E req index_urls "map (\<lambda>(op, v). op @ v) (req_specs req)" index_urls w]
  show ?thesis by simp
qed

text \<open>
  C10. The fallback list is free of duplicates and disjoint from the set of installed
  specs when the loop starts, every pass of the loop keeps it so, and so it is when the
  loop ends; the list that \<^verbatim>\<open>_install_all_upip_compatible\<close> returns has no duplicates.
\<close>

theorem fallback_list_invariant:
  "sorted_out (initial_state spec_list)
   \<and> (\<forall>st spec w0 st' w'.
         sorted_out st \<and> loop_body E install_dir index_urls spec st w0 = (Inr st', w')
         \<longrightarrow> sorted_out st')
   \<and> (\<forall>st' w'.
         engine_loop fuel E install_dir index_urls (initial_state spec_list) w = Some (Inr st', w')
         \<longrightarrow> distinct (pip_specs st') \<and> set (pip_specs st') \<inter> installed_specs st' = {})
   \<and> (\<forall>l w'.
         install_all_upip_compatible fuel E spec_list install_dir index_urls w = Some (Inr l, w')
         \<longrightarrow> distinct l)"
proof (intro conjI allI impI)
  show i: "sorted_out (initial_state spec_list)"
    by (simp add: sorted_out_def initial_state_def)
  show "sorted_out st'"
    if "sorted_out st \<and> loop_body E install_dir index_urls spec st w0 = (Inr st', w')"
    for st spec w0 st' w'
    using that loop_body_sorted_out by blast
  show "distinct (pip_specs st')" and "set (pip_specs st') \<inter> installed_specs st' = {}"
    if "engine_loop fuel E install_dir index_urls (initial_state spec_list) w = Some (Inr st', w')"
    for st' w'
    using engine_loop_sorted_out[OF that i] by (simp_all add: sorted_out_def)
  show "distinct l"
    if "install_all_upip_compatible fuel E spec_list install_dir index_urls w = Some (Inr l, w')"
    for l w'
  proof -
    from that obtain st' where
      e: "engine_loop fuel E install_dir index_urls (initial_state spec_list) w = Some (Inr st', w')"
      and l: "l = pip_specs st'"
      by (auto simp: install_all_upip_compatible_def split: option.splits prod.splits sum.splits)
    from engine_loop_sorted_out[OF e i] have "sorted_out st'" .
    then show ?thesis by (simp add: sorted_out_def l)
  qed
qed

text \<open>
  C7. When the release of the version that the metadata names has not exactly one asset,
  or its asset does not end in \<^verbatim>\<open>.tar.gz\<close>, the pass appends the spec to the fallback list
  and does nothing else: the world is the one that the metadata lookup left, with the
  files untouched, so the archive is neither downloaded nor inspected. The fallback list
  only grows, and a spec on it is skipped whenever it is popped again.
\<close>

theorem not_single_tarball_goes_to_pip:
  assumes "spec \<notin> installed_specs st" and "spec \<notin> set (pip_specs st)"
      and "Requirement_parse E spec = Inr req"
      and "fetch_metadata E req index_urls w = (Inr m, w1)"
      and "map_of (releases m) (info_version m) = Some assets"
      and "length assets \<noteq> 1 \<or> \<not> endswith (asset_url (hd assets)) ''.tar.gz''"
  shows "loop_body E install_dir index_urls spec st w
           = (Inr (st\<lparr>pip_specs := pip_specs st @ [spec]\<rparr>), w1)
       \<and> files w1 = files w
       \<and> (\<forall>other st2 w2 st3 w3.
             loop_body E install_dir index_urls other st2 w2 = (Inr st3, w3)
             \<longrightarrow> set (pip_specs st2) \<subseteq> set (pip_specs st3))
       \<and> (\<forall>st2 w2. spec \<in> set (pip_specs st2)
             \<longrightarrow> loop_body E install_dir index_urls spec st2 w2 = (Inr st2, w2))"
proof (intro conjI allI impI)
  show "loop_body E install_dir index_urls spec st w
           = (Inr (st\<lparr>pip_specs := pip_specs st @ [spec]\<rparr>), w1)"
    using assms by (simp add: loop_body_def)
  show "files w1 = files w"
    using fetch_metadata_files[OF assms(4)] .
  show "set (pip_specs st2) \<subseteq> set (pip_specs st3)"
    if "loop_body E install_dir index_urls other st2 w2 = (Inr st3, w3)" for other st2 w2 st3 w3
    using loop_body_grows(2)[OF that] .
  show "loop_body E install_dir index_urls spec st2 w2 = (Inr st2, w2)"
    if "spec \<in> set (pip_specs st2)" for st2 w2
    using that by (simp add: loop_body_skip)
qed

lemma engine_loop_done:
  "specs_to_be_processed st = [] \<Longrightarrow> engine_loop fuel E install_dir index_urls st w = Some (Inr st, w)"
  by simp

lemma engine_loop_pass:
  "specs_to_be_processed st = spec # rest
     \<Longrightarrow> loop_body E install_dir index_urls spec (st\<lparr>specs_to_be_processed := rest\<rparr>) w = (Inr st1, w1)
     \<Longrightarrow> engine_loop (Suc fuel) E install_dir index_urls st w
         = engine_loop fuel E install_dir index_urls st1 w1"
  by simp

text \<open>
  Whatever the indexes serve: when the loop ends, each spec of the original list is
  either installed and not on the fallback list, or exactly once on the fallback list
  and not installed.
\<close>

lemma count_list_distinct: "distinct xs \<Longrightarrow> x \<in> set xs \<Longrightarrow> count_list xs x = 1"
  by (induction xs) auto

lemma listed_specs_sorted_once:
  assumes "engine_loop fuel E install_dir index_urls (initial_state spec_list) w = Some (Inr st', w')"
      and "s \<in> set spec_list"
  shows "(s \<in> installed_specs st' \<and> s \<notin> set (pip_specs st'))
       \<or> (s \<notin> installed_specs st' \<and> count_list (pip_specs st') s = 1)"
proof -
  have "sorted_out (initial_state spec_list)"
    by (simp add: sorted_out_def initial_state_def)
  from engine_loop_sorted_out[OF assms(1) this]
  have d: "distinct (pip_specs st')" and i: "set (pip_specs st') \<inter> installed_specs st' = {}"
    by (simp_all add: sorted_out_def)
  from engine_loop_grows[OF assms(1)] assms(2)
  have "s \<in> installed_specs st' \<union> set (pip_specs st')"
    by (auto simp: initial_state_def)
  then show ?thesis
  proof
    assume "s \<in> installed_specs st'"
    with i show ?thesis by auto
  next
    assume p: "s \<in> set (pip_specs st')"
    with i have "s \<notin> installed_specs st'" by auto
    moreover from d p have "count_list (pip_specs st') s = 1"
      by (rule count_list_distinct)
    ultimately show ?thesis by simp
  qed
qed

text \<open>
  C6. For the specs \<open>a\<close> and \<open>b\<close>, where \<open>a\<close> installs from its archive and declares
  \<open>b\<close>, and \<open>b\<close> installs from its archive: the loop ends after two passes, with both
  specs installed, an empty fallback list, and the world that one lookup and one
  installation of each leaves. A popped spec that is already installed or on the
  fallback list is skipped.
\<close>

theorem shared_dependency_processed_once:
  assumes "a \<noteq> b"
      and "Requirement_parse E a = Inr ra"
      and "fetch_metadata E ra index_urls w = (Inr ma, w1)"
      and "map_of (releases ma) (info_version ma) = Some [asset_a]"
      and "endswith (asset_url asset_a) ''.tar.gz''"
      and "install_single_upip_compatible_from_url E (req_project_name ra) (asset_url asset_a)
             install_dir w1 = (Inr deps_a, w2)"
      and "b \<in> set deps_a" and "set deps_a \<subseteq> {a, b}"
      and "Requirement_parse E b = Inr rb"
      and "fetch_metadata E rb index_urls w2 = (Inr mb, w3)"
      and "map_of (releases mb) (info_version mb) = Some [asset_b]"
      and "endswith (asset_url asset_b) ''.tar.gz''"
      and "install_single_upip_compatible_from_url E (req_project_name rb) (asset_url asset_b)
             install_dir w3 = (Inr deps_b, w4)"
      and "set deps_b \<subseteq> {a, b}"
  shows "engine_loop (Suc (Suc fuel)) E install_dir index_urls (initial_state [a, b]) w
           = Some (Inr \<lparr>installed_specs = {a, b}, specs_to_be_processed = [], pip_specs = []\<rparr>, w4)
       \<and> install_all_upip_compatible (Suc (Suc fuel)) E [a, b] install_dir index_urls w
           = Some (Inr [], w4)
       \<and> (\<forall>spec st w'. spec \<in> installed_specs st \<or> spec \<in> set (pip_specs st)
             \<longrightarrow> loop_body E install_dir index_urls spec st w' = (Inr st, w'))"
proof -
  let ?s0 = "\<lparr>installed_specs = {}, specs_to_be_processed = [b], pip_specs = []\<rparr>"
  let ?s1 = "\<lparr>installed_specs = {a}, specs_to_be_processed = [b], pip_specs = []\<rparr>"
  let ?s1' = "\<lparr>installed_specs = {a}, specs_to_be_processed = [], pip_specs = []\<rparr>"
  let ?s2 = "\<lparr>installed_specs = {a, b}, specs_to_be_processed = [], pip_specs = []\<rparr>"
  have da: "add_dep_specs deps_a ?s1 = ?s1"
    using assms(8) by (intro add_dep_specs_known) auto
  have db: "add_dep_specs deps_b ?s2 = ?s2"
    using assms(14) by (intro add_dep_specs_known) auto
  have p1: "loop_body E install_dir index_urls a ?s0 w = (Inr ?s1, w2)"
    using assms(2-6) da by (simp add: loop_body_def)
  have p2: "loop_body E install_dir index_urls b ?s1' w2 = (Inr ?s2, w4)"
    using assms(1,9-13) db by (simp add: loop_body_def insert_commute)
  have e2: "engine_loop fuel E install_dir index_urls ?s2 w4 = Some (Inr ?s2, w4)"
    by (rule engine_loop_done) simp
  have e1: "engine_loop (Suc fuel) E install_dir index_urls ?s1 w2 = Some (Inr ?s2, w4)"
    using engine_loop_pass[of ?s1 b "[]" E install_dir index_urls w2 ?s2 w4 fuel] p2 e2 by simp
  have e0: "engine_loop (Suc (Suc fuel)) E install_dir index_urls (initial_state [a, b]) w
              = Some (Inr ?s2, w4)"
    using engine_loop_pass[of "initial_state [a, b]" a "[b]" E install_dir index_urls w ?s1 w2 "Suc fuel"]
      p1 e1 by (simp add: initial_state_def)
  have i: "install_all_upip_compatible (Suc (Suc fuel)) E [a, b] install_dir index_urls w
             = Some (Inr [], w4)"
    unfolding install_all_upip_compatible_def e0 by simp
  from e0 i loop_body_skip show ?thesis by blast
qed

theorem fallback_list_invariant_witness:
  "engine_loop 5 sample_env ''lib'' [''https://idx1'', ''https://idx2'']
     (initial_state [''two'', ''a'', ''two'']) empty_world
   = Some (Inr \<lparr>installed_specs = {''b'', ''a''}, specs_to_be_processed = [], pip_specs = [''two'']\<rparr>,
           \<lparr>files = [((False, [''lib'']), Dir), ((False, [''lib'', ''a.py'']), File ''import b''),
                     ((False, [''lib'', ''b.py'']), File ''pass'')],
            trace = [Urlopen ''https://idx1/two/json'', Urlopen ''https://idx2/two/json'',
                     Urlopen ''https://idx1/a/json'', Urlopen ''https://idx2/a/json'',
                     Urlopen ''https://files/a-1.0.tar.gz'',
                     Urlopen ''https://idx1/b/json'', Urlopen ''https://idx2/b/json'',
                     Urlopen ''https://files/b-1.0.tar.gz'']\<rparr>)
   \<and> distinct (pip_specs \<lparr>installed_specs = {''b'', ''a''}, specs_to_be_processed = [],
                            pip_specs = [''two'']\<rparr>)"
proof -
  let ?S = "\<lparr>installed_specs = {''b'', ''a''}, specs_to_be_processed = [], pip_specs = [''two'']\<rparr>"
  let ?W = "\<lparr>files = [((False, [''lib'']), Dir), ((False, [''lib'', ''a.py'']), File ''import b''),
                     ((False, [''lib'', ''b.py'']), File ''pass'')],
            trace = [Urlopen ''https://idx1/two/json'', Urlopen ''https://idx2/two/json'',
                     Urlopen ''https://idx1/a/json'', Urlopen ''https://idx2/a/json'',
                     Urlopen ''https://files/a-1.0.tar.gz'',
                     Urlopen ''https://idx1/b/json'', Urlopen ''https://idx2/b/json'',
                     Urlopen ''https://files/b-1.0.tar.gz'']\<rparr>"
  have e: "engine_loop 5 sample_env ''lib'' [''https://idx1'', ''https://idx2'']
             (initial_state [''two'', ''a'', ''two'']) empty_world = Some (Inr ?S, ?W)"
    by code_simp
  note T = fallback_list_invariant[where fuel = 5 and E = sample_env and install_dir = "''lib''"
      and index_urls = "[''https://idx1'', ''https://idx2'']"
      and spec_list = "[''two'', ''a'', ''two'']" and w = empty_world,
      THEN conjunct2, THEN conjunct2, THEN conjunct1, THEN spec, THEN spec, THEN mp, OF e]
  show ?thesis
    apply (intro conjI)
     apply (rule e)
    apply (rule T[THEN conjunct1])
    done
qed

theorem not_single_tarball_goes_to_pip_witness:
  "loop_body sample_env ''lib'' [''https://idx1'', ''https://idx2''] ''two''
     \<lparr>installed_specs = {}, specs_to_be_processed = [], pip_specs = []\<rparr> empty_world
   = (Inr (\<lparr>installed_specs = {}, specs_to_be_processed = [], pip_specs = []\<rparr>
             \<lparr>pip_specs := pip_specs \<lparr>installed_specs = {}, specs_to_be_processed = [],
                                         pip_specs = []\<rparr> @ [''two'']\<rparr>),
      \<lparr>files = [], trace = [Urlopen ''https://idx1/two/json'', Urlopen ''https://idx2/two/json'']\<rparr>)"
proof -
  let ?st = "\<lparr>installed_specs = {}, specs_to_be_processed = [], pip_specs = []\<rparr>"
  let ?w1 = "\<lparr>files = [], trace = [Urlopen ''https://idx1/two/json'', Urlopen ''https://idx2/two/json'']\<rparr>"
  have h1: "''two'' \<notin> installed_specs ?st" by simp
  have h2: "''two'' \<notin> set (pip_specs ?st)" by simp
  have h3: "Requirement_parse sample_env ''two'' = Inr (bare_req ''two'')" by code_simp
  have h4: "fetch_metadata sample_env (bare_req ''two'') [''https://idx1'', ''https://idx2''] empty_world
              = (Inr two_doc, ?w1)" by code_simp
  have h5: "map_of (releases two_doc) (info_version two_doc)
              = Some [\<lparr>asset_url = ''https://files/two-1.0.tar.gz''\<rparr>,
                      \<lparr>asset_url = ''https://files/two-1.0-py3-none-any.whl''\<rparr>]" by code_simp
  have h6: "length [\<lparr>asset_url = ''https://files/two-1.0.tar.gz''\<rparr>,
                      \<lparr>asset_url = ''https://files/two-1.0-py3-none-any.whl''\<rparr>] \<noteq> 1
            \<or> \<not> endswith (asset_url (hd [\<lparr>asset_url = ''https://files/two-1.0.tar.gz''\<rparr>,
                      \<lparr>asset_url = ''https://files/two-1.0-py3-none-any.whl''\<rparr>])) ''.tar.gz''" by simp
  show ?thesis
    by (rule not_single_tarball_goes_to_pip[OF h1 h2 h3 h4 h5 h6, THEN conjunct1])
qed

theorem shared_dependency_processed_once_witness:
  "engine_loop (Suc (Suc 0)) sample_env ''lib'' [''https://idx1'', ''https://idx2'']
     (initial_state [''a'', ''b'']) empty_world
   = Some (Inr \<lparr>installed_specs = {''a'', ''b''}, specs_to_be_processed = [], pip_specs = []\<rparr>,
           \<lparr>files = [((False, [''lib'']), Dir), ((False, [''lib'', ''a.py'']), File ''import b''),
                     ((False, [''lib'', ''b.py'']), File ''pass'')],
            trace = [Urlopen ''https://idx1/a/json'', Urlopen ''https://idx2/a/json'',
                     Urlopen ''https://files/a-1.0.tar.gz'',
                     Urlopen ''https://idx1/b/json'', Urlopen ''https://idx2/b/json'',
                     Urlopen ''https://files/b-1.0.tar.gz'']\<rparr>)"
proof -
  let ?u = "[''https://idx1'', ''https://idx2'']"
  let ?w1 = "\<lparr>files = [], trace = [Urlopen ''https://idx1/a/json'', Urlopen ''https://idx2/a/json'']\<rparr>"
  let ?w2 = "\<lparr>files = [((False, [''lib'']), Dir), ((False, [''lib'', ''a.py'']), File ''import b'')],
              trace = [Urlopen ''https://idx1/a/json'', Urlopen ''https://idx2/a/json'',
                       Urlopen ''https://files/a-1.0.tar.gz'']\<rparr>"
  let ?w3 = "\<lparr>files = [((False, [''lib'']), Dir), ((False, [''lib'', ''a.py'']), File ''import b'')],
              trace = [Urlopen ''https://idx1/a/json'', Urlopen ''https://idx2/a/json'',
                       Urlopen ''https://files/a-1.0.tar.gz'',
                       Urlopen ''https://idx1/b/json'', Urlopen ''https://idx2/b/json'']\<rparr>"
  let ?w4 = "\<lparr>files = [((False, [''lib'']), Dir), ((False, [''lib'', ''a.py'']), File ''import b''),
                     ((False, [''lib'', ''b.py'']), File ''pass'')],
            trace = [Urlopen ''https://idx1/a/json'', Urlopen ''https://idx2/a/json'',
                     Urlopen ''https://files/a-1.0.tar.gz'',
                     Urlopen ''https://idx1/b/json'', Urlopen ''https://idx2/b/json'',
                     Urlopen ''https://files/b-1.0.tar.gz'']\<rparr>"
  have h1: "''a'' \<noteq> ''b''" by simp
  have h2: "Requirement_parse sample_env ''a'' = Inr (bare_req ''a'')" by code_simp
  have h3: "fetch_metadata sample_env (bare_req ''a'') ?u empty_world
              = (Inr (single_doc ''1.0'' ''https://files/a-1.0.tar.gz''), ?w1)" by code_simp
  have h4: "map_of (releases (single_doc ''1.0'' ''https://files/a-1.0.tar.gz''))
              (info_version (single_doc ''1.0'' ''https://files/a-1.0.tar.gz''))
            = Some [\<lparr>asset_url = ''https://files/a-1.0.tar.gz''\<rparr>]" by code_simp
  have h5: "endswith (asset_url \<lparr>asset_url = ''https://files/a-1.0.tar.gz''\<rparr>) ''.tar.gz''" by code_simp
  have h6: "install_single_upip_compatible_from_url sample_env (req_project_name (bare_req ''a''))
              (asset_url \<lparr>asset_url = ''https://files/a-1.0.tar.gz''\<rparr>) ''lib'' ?w1
            = (Inr [''b''], ?w2)" by code_simp
  have h7: "''b'' \<in> set [''b'']" by simp
  have h8: "set [''b''] \<subseteq> {''a'', ''b''}" by simp
  have h9: "Requirement_parse sample_env ''b'' = Inr (bare_req ''b'')" by code_simp
  have h10: "fetch_metadata sample_env (bare_req ''b'') ?u ?w2
              = (Inr (single_doc ''1.0'' ''https://files/b-1.0.tar.gz''), ?w3)" by code_simp
  have h11: "map_of (releases (single_doc ''1.0'' ''https://files/b-1.0.tar.gz''))
              (info_version (single_doc ''1.0'' ''https://files/b-1.0.tar.gz''))
            = Some [\<lparr>asset_url = ''https://files/b-1.0.tar.gz''\<rparr>]" by code_simp
  have h12: "endswith (asset_url \<lparr>asset_url = ''https://files/b-1.0.tar.gz''\<rparr>) ''.tar.gz''" by code_simp
  have h13: "install_single_upip_compatible_from_url sample_env (req_project_name (bare_req ''b''))
              (asset_url \<lparr>asset_url = ''https://files/b-1.0.tar.gz''\<rparr>) ''lib'' ?w3
            = (Inr [], ?w4)" by code_simp
  have h14: "set [] \<subseteq> {''a'', ''b''}" by simp
  show ?thesis
    by (rule shared_dependency_processed_once[OF h1 h2 h3 h4 h5 h6 h7 h8 h9 h10 h11 h12 h13 h14,
          THEN conjunct1])
qed

subsection \<open>The Fallback Installer\<close>

lemma fs_get_filter:
  "fs_get (filter (\<lambda>kv. \<not> R (fst kv)) fs) q
     = (if snd q = [] then Some Dir else if R q then None else map_of fs q)"
  by (induction fs) (auto simp: fs_get_def)

lemma listdir_names:
  assumes "os_listdir t w = Inr names" and "proper_names (files w)" and "nm \<in> set names"
  shows "file_name nm"
    and "(fst (normpath t), snd (normpath t) @ [nm]) \<in> fst ` set (files w)"
proof -
  from assms(1,3) obtain q n0 where q0: "(q, n0) \<in> set (files w)" and ne: "snd q \<noteq> []"
    and p: "parent q = normpath t" and l: "nm = last (snd q)"
    by (auto simp: os_listdir_def split: if_splits option.splits node.splits)
  from q0 have q: "q \<in> fst ` set (files w)" by force
  from q assms(2) have "list_all file_name (snd q)"
    by (auto simp: proper_names_def list_all_iff)
  with ne l show "file_name nm" by (simp add: list_all_iff)
  from p have "fst q = fst (normpath t)" and "butlast (snd q) = snd (normpath t)"
    by (simp_all add: parent_def prod_eq_iff)
  moreover from ne l have "snd q = butlast (snd q) @ [nm]" by simp
  ultimately have "q = (fst (normpath t), snd (normpath t) @ [nm])"
    by (simp add: prod_eq_iff)
  with q show "(fst (normpath t), snd (normpath t) @ [nm]) \<in> fst ` set (files w)" by simp
qed

lemma listdir_distinct: "os_listdir t w = Inr names \<Longrightarrow> distinct names"
  by (auto simp: os_listdir_def split: if_splits option.splits node.splits)

text \<open>The loop of lines 190 to 192 when every name with the suffix is a directory.\<close>

lemma remove_dist_infos_dirs:
  assumes "t \<noteq> []"
  shows "distinct names \<Longrightarrow> \<forall>nm\<in>set names. file_name nm
     \<Longrightarrow> \<forall>nm\<in>set names. endswith nm ''.dist-info''
           \<longrightarrow> fs_get (files w) (normpath (os_path_join t nm)) = Some Dir
     \<Longrightarrow> remove_dist_infos t names w
         = (Inr (),
            w\<lparr>files := filter (\<lambda>kv. \<not> (\<exists>nm\<in>set names. endswith nm ''.dist-info''
                                     \<and> under (normpath (os_path_join t nm)) (fst kv)))
                         (files w)\<rparr>)"
proof (induction names arbitrary: w)
  case Nil
  then show ?case by simp
next
  case (Cons n names)
  from Cons.prems have d: "distinct names" and nn: "n \<notin> set names"
    and fn: "\<forall>nm\<in>set names. file_name nm" and fn0: "file_name n" by auto
  show ?case
  proof (cases "endswith n ''.dist-info''")
    case False
    from Cons.prems(3) have
      "\<forall>nm\<in>set names. endswith nm ''.dist-info''
           \<longrightarrow> fs_get (files w) (normpath (os_path_join t nm)) = Some Dir" by simp
    from Cons.IH[OF d fn this] False show ?thesis by simp
  next
    case True
    let ?p = "normpath (os_path_join t n)"
    let ?w1 = "w\<lparr>files := filter (\<lambda>kv. \<not> under ?p (fst kv)) (files w)\<rparr>"
    from Cons.prems(3) True have dir: "fs_get (files w) ?p = Some Dir" by simp
    have jn: "os_path_join t n \<noteq> []"
      using assms fn0 by (auto simp: os_path_join_def file_name_def)
    have rm: "shutil_rmtree (os_path_join t n) w = (Inr (), ?w1)"
      using dir jn by (simp add: shutil_rmtree_def)
    have keep: "\<forall>nm\<in>set names. endswith nm ''.dist-info''
           \<longrightarrow> fs_get (files ?w1) (normpath (os_path_join t nm)) = Some Dir"
    proof (intro ballI impI)
      fix nm assume nm: "nm \<in> set names" and e: "endswith nm ''.dist-info''"
      from nm fn have f: "file_name nm" by simp
      from nm nn have "nm \<noteq> n" by auto
      then have nu: "\<not> under ?p (normpath (os_path_join t nm))"
        by (simp add: normpath_child[OF f assms] normpath_child[OF fn0 assms] under_def)
      have ne: "snd (normpath (os_path_join t nm)) \<noteq> []"
        by (simp add: normpath_child[OF f assms])
      from Cons.prems(3) nm e
      have "fs_get (files w) (normpath (os_path_join t nm)) = Some Dir" by simp
      with ne have "map_of (files w) (normpath (os_path_join t nm)) = Some Dir"
        by (simp add: fs_get_def)
      with nu ne show "fs_get (files ?w1) (normpath (os_path_join t nm)) = Some Dir"
        by (simp add: fs_get_filter)
    qed
    have "remove_dist_infos t (n # names) w = remove_dist_infos t names ?w1"
      using True rm by simp
    also have "\<dots> = (Inr (),
            ?w1\<lparr>files := filter (\<lambda>kv. \<not> (\<exists>nm\<in>set names. endswith nm ''.dist-info''
                                     \<and> under (normpath (os_path_join t nm)) (fst kv)))
                         (files ?w1)\<rparr>)"
      by (rule Cons.IH[OF d fn keep])
    also have "\<dots> = (Inr (),
            w\<lparr>files := filter (\<lambda>kv. \<not> (\<exists>nm\<in>set (n # names). endswith nm ''.dist-info''
                                     \<and> under (normpath (os_path_join t nm)) (fst kv)))
                         (files w)\<rparr>)"
      using True by (auto intro!: arg_cong[where f = "\<lambda>f. w\<lparr>files := f\<rparr>"] filter_cong)
    finally show ?thesis .
  qed
qed

lemma pip_command_eq:
  "[exe, ''-m'', ''pip''] @ pip_args target_dir s @ spec_list = pip_command exe target_dir s spec_list"
  by (simp add: pip_args_def pip_command_def)

lemma os_listdir_files: "files w = files w' \<Longrightarrow> os_listdir t w = os_listdir t w'"
  by (simp add: os_listdir_def split: option.splits node.splits)

text \<open>
  C8, as amended. \<^verbatim>\<open>_install_with_pip\<close> drops the lightweight-only index from the index
  URLs; when none is left it raises \<open>UserError\<close> and nothing else happens; otherwise it
  runs pip with the first index that is left as \<^verbatim>\<open>--index-url\<close> and the others as
  \<^verbatim>\<open>--extra-index-url\<close>, and a non-zero exit status is raised with no clean-up. After a
  successful run, in a file system with proper names, when every entry of the target
  directory whose name ends in \<^verbatim>\<open>.dist-info\<close> is a directory, the call returns and the
  file system is the one that pip left without those directories and what lies under
  them: every other entry is unchanged.
\<close>

theorem pip_fallback:
  "(filter (\<lambda>u. u \<noteq> MP_ORG_INDEX) index_urls = []
      \<longrightarrow> install_with_pip E spec_list target_dir index_urls w
          = (Inl (UserError ''No suitable indexes for pip''), w))
   \<and> MP_ORG_INDEX \<notin> set (filter (\<lambda>u. u \<noteq> MP_ORG_INDEX) index_urls)
   \<and> (\<forall>exe code fs1.
         filter (\<lambda>u. u \<noteq> MP_ORG_INDEX) index_urls \<noteq> [] \<and> sys_executable E = Some exe
         \<and> pip_program E (pip_command exe target_dir (filter (\<lambda>u. u \<noteq> MP_ORG_INDEX) index_urls)
                            spec_list) (files w) = (code, fs1)
         \<and> code \<noteq> 0
       \<longrightarrow> install_with_pip E spec_list target_dir index_urls w
           = (Inl (CalledProcessError code),
              w\<lparr>files := fs1,
                trace := trace w @ [CheckCall (pip_command exe target_dir
                           (filter (\<lambda>u. u \<noteq> MP_ORG_INDEX) index_urls) spec_list)]\<rparr>))
   \<and> (\<forall>exe fs1 names.
         filter (\<lambda>u. u \<noteq> MP_ORG_INDEX) index_urls \<noteq> [] \<and> sys_executable E = Some exe
         \<and> pip_program E (pip_command exe target_dir (filter (\<lambda>u. u \<noteq> MP_ORG_INDEX) index_urls)
                            spec_list) (files w) = (0, fs1)
         \<and> proper_names fs1
         \<and> os_listdir target_dir (w\<lparr>files := fs1\<rparr>) = Inr names
         \<and> (\<forall>nm\<in>set names. endswith nm ''.dist-info''
               \<longrightarrow> fs_get fs1 (normpath (os_path_join target_dir nm)) = Some Dir)
       \<longrightarrow> install_with_pip E spec_list target_dir index_urls w
           = (Inr (),
              w\<lparr>files := filter (\<lambda>kv. \<not> (\<exists>nm\<in>set names. endswith nm ''.dist-info''
                                       \<and> under (normpath (os_path_join target_dir nm)) (fst kv)))
                            fs1,
                trace := trace w @ [CheckCall (pip_command exe target_dir
                           (filter (\<lambda>u. u \<noteq> MP_ORG_INDEX) index_urls) spec_list)]\<rparr>))"
proof (intro conjI allI impI)
  assume "filter (\<lambda>u. u \<noteq> MP_ORG_INDEX) index_urls = []"
  then show "install_with_pip E spec_list target_dir index_urls w
          = (Inl (UserError ''No suitable indexes for pip''), w)"
    by (simp add: install_with_pip_def)
next
  show "MP_ORG_INDEX \<notin> set (filter (\<lambda>u. u \<noteq> MP_ORG_INDEX) index_urls)" by simp
next
  fix exe code fs1
  let ?s = "filter (\<lambda>u. u \<noteq> MP_ORG_INDEX) index_urls"
  assume a: "?s \<noteq> [] \<and> sys_executable E = Some exe
         \<and> pip_program E (pip_command exe target_dir ?s spec_list) (files w) = (code, fs1)
         \<and> code \<noteq> 0"
  then show "install_with_pip E spec_list target_dir index_urls w
           = (Inl (CalledProcessError code),
              w\<lparr>files := fs1, trace := trace w @ [CheckCall (pip_command exe target_dir ?s spec_list)]\<rparr>)"
    by (simp add: install_with_pip_def Let_def check_call_def pip_command_eq
             del: append.simps append_Cons)
next
  fix exe fs1 names
  let ?s = "filter (\<lambda>u. u \<noteq> MP_ORG_INDEX) index_urls"
  let ?cmd = "pip_command exe target_dir ?s spec_list"
  let ?w1 = "w\<lparr>files := fs1, trace := trace w @ [CheckCall ?cmd]\<rparr>"
  assume a: "?s \<noteq> [] \<and> sys_executable E = Some exe
         \<and> pip_program E ?cmd (files w) = (0, fs1)
         \<and> proper_names fs1
         \<and> os_listdir target_dir (w\<lparr>files := fs1\<rparr>) = Inr names
         \<and> (\<forall>nm\<in>set names. endswith nm ''.dist-info''
               \<longrightarrow> fs_get fs1 (normpath (os_path_join target_dir nm)) = Some Dir)"
  then have l0: "os_listdir target_dir (w\<lparr>files := fs1\<rparr>) = Inr names" by simp
  then have l: "os_listdir target_dir ?w1 = Inr names"
    using os_listdir_files[of ?w1 "w\<lparr>files := fs1\<rparr>" target_dir] by simp
  from l have t: "target_dir \<noteq> []"
    by (auto simp: os_listdir_def split: if_splits)
  from a have pn: "proper_names (files ?w1)" by simp
  have fn: "\<forall>nm\<in>set names. file_name nm"
    using listdir_names(1)[OF l pn] by blast
  have dirs: "\<forall>nm\<in>set names. endswith nm ''.dist-info''
           \<longrightarrow> fs_get (files ?w1) (normpath (os_path_join target_dir nm)) = Some Dir"
    using a by simp
  have cc: "check_call E ?cmd w = (Inr (), ?w1)"
    using a by (simp add: check_call_def)
  have "install_with_pip E spec_list target_dir index_urls w = remove_dist_infos target_dir names ?w1"
    using a cc l by (simp add: install_with_pip_def Let_def pip_command_eq del: append.simps append_Cons)
  also have "\<dots> = (Inr (),
            ?w1\<lparr>files := filter (\<lambda>kv. \<not> (\<exists>nm\<in>set names. endswith nm ''.dist-info''
                                     \<and> under (normpath (os_path_join target_dir nm)) (fst kv)))
                         (files ?w1)\<rparr>)"
    by (rule remove_dist_infos_dirs[OF t listdir_distinct[OF l] fn dirs])
  finally show "install_with_pip E spec_list target_dir index_urls w
           = (Inr (),
              w\<lparr>files := filter (\<lambda>kv. \<not> (\<exists>nm\<in>set names. endswith nm ''.dist-info''
                                       \<and> under (normpath (os_path_join target_dir nm)) (fst kv)))
                            fs1,
                trace := trace w @ [CheckCall ?cmd]\<rparr>)"
    by simp
qed

theorem pip_fallback_witness:
  "install_with_pip sample_env [''two''] ''lib'' [MP_ORG_INDEX, ''https://idx2''] lib_world
   = (Inr (),
      \<lparr>files = [((False, [''lib'']), Dir), ((False, [''lib'', ''two'']), Dir),
                ((False, [''lib'', ''two'', ''__init__.py'']), File ''pass'')],
       trace = [CheckCall [''/usr/bin/python3'', ''-m'', ''pip'', ''--no-input'', ''--no-color'',
                           ''--disable-pip-version-check'', ''install'', ''--upgrade'', ''--target'',
                           ''lib'', ''--index-url'', ''https://idx2'', ''two'']]\<rparr>)"
proof -
  let ?u = "[MP_ORG_INDEX, ''https://idx2'']"
  let ?s = "filter (\<lambda>u. u \<noteq> MP_ORG_INDEX) ?u"
  let ?cmd = "pip_command ''/usr/bin/python3'' ''lib'' ?s [''two'']"
  let ?fs1 = "[((False, [''lib'']), Dir), ((False, [''lib'', ''two'']), Dir),
               ((False, [''lib'', ''two'', ''__init__.py'']), File ''pass''),
               ((False, [''lib'', ''two-1.0.dist-info'']), Dir),
               ((False, [''lib'', ''two-1.0.dist-info'', ''METADATA'']), File ''Name: two'')]"
  let ?names = "[''two'', ''two-1.0.dist-info'']"
  have h1: "?s \<noteq> []" by code_simp
  have h2: "sys_executable sample_env = Some ''/usr/bin/python3''" by code_simp
  have h3: "pip_program sample_env ?cmd (files lib_world) = (0, ?fs1)" by code_simp
  have h4: "proper_names ?fs1" by code_simp
  have h5: "os_listdir ''lib'' (lib_world\<lparr>files := ?fs1\<rparr>) = Inr ?names" by code_simp
  have h6: "\<forall>nm\<in>set ?names. endswith nm ''.dist-info''
              \<longrightarrow> fs_get ?fs1 (normpath (os_path_join ''lib'' nm)) = Some Dir" by code_simp
  note T = pip_fallback[where E = sample_env and spec_list = "[''two'']" and target_dir = "''lib''"
      and index_urls = ?u and w = lib_world,
      THEN conjunct2, THEN conjunct2, THEN conjunct2, THEN spec, THEN spec, THEN spec, THEN mp,
      OF conjI[OF h1 conjI[OF h2 conjI[OF h3 conjI[OF h4 conjI[OF h5 h6]]]]]]
  have ev: "(Inr (),
              lib_world\<lparr>files := filter (\<lambda>kv. \<not> (\<exists>nm\<in>set ?names. endswith nm ''.dist-info''
                                       \<and> under (normpath (os_path_join ''lib'' nm)) (fst kv)))
                            ?fs1,
                trace := trace lib_world @ [CheckCall ?cmd]\<rparr>)
            = ((Inr (),
      \<lparr>files = [((False, [''lib'']), Dir), ((False, [''lib'', ''two'']), Dir),
                ((False, [''lib'', ''two'', ''__init__.py'']), File ''pass'')],
       trace = [CheckCall [''/usr/bin/python3'', ''-m'', ''pip'', ''--no-input'', ''--no-color'',
                           ''--disable-pip-version-check'', ''install'', ''--upgrade'', ''--target'',
                           ''lib'', ''--index-url'', ''https://idx2'', ''two'']]\<rparr>) :: unit result)"
    by code_simp
  show ?thesis
    by (rule trans[OF T ev])
qed

text \<open>
  C8 as stated fails: an entry of the target directory whose name ends in
  \<^verbatim>\<open>.dist-info\<close> and which is a regular file is not removed. \<^verbatim>\<open>shutil.rmtree\<close> raises
  \<open>NotADirectoryError\<close> on it, and the entries that the loop had not reached yet stay
  as well.
\<close>

theorem dist_info_file_counterexample:
  "fs_get (files notes_world) (normpath (os_path_join ''lib'' ''notes.dist-info'')) = Some (File ''n'')
   \<and> install_with_pip sample_env [''two''] ''lib'' [MP_ORG_INDEX, ''https://idx2''] notes_world
      = (Inl (OSError NotADirectoryError),
         \<lparr>files = [((False, [''lib'']), Dir),
                   ((False, [''lib'', ''notes.dist-info'']), File ''n''),
                   ((False, [''lib'', ''two'']), Dir),
                   ((False, [''lib'', ''two'', ''__init__.py'']), File ''pass''),
                   ((False, [''lib'', ''two-1.0.dist-info'']), Dir),
                   ((False, [''lib'', ''two-1.0.dist-info'', ''METADATA'']), File ''Name: two'')],
          trace = [CheckCall [''/usr/bin/python3'', ''-m'', ''pip'', ''--no-input'', ''--no-color'',
                              ''--disable-pip-version-check'', ''install'', ''--upgrade'',
                              ''--target'', ''lib'', ''--index-url'', ''https://idx2'', ''two'']]\<rparr>)"
  by code_simp

subsection \<open>The entry point\<close>

text \<open>
  C9. \<^verbatim>\<open>install\<close> with a string behaves as \<^verbatim>\<open>install\<close> with the list of that one string:
  same result and same world, for every target directory, index list, environment
  and amount of fuel.
\<close>

theorem install_string_is_singleton:
  "install fuel E (Str s) install_dir index_urls w
   = install fuel E (StrList [s]) install_dir index_urls w"
  by (simp add: install_def)

theorem install_string_is_singleton_witness:
  "install 5 sample_env (Str ''two'') (Some ''lib'') (Some [''https://idx1'', ''https://idx2'']) lib_world
   = Some (Inr (),
       \<lparr>files = [((False, [''lib'']), Dir), ((False, [''lib'', ''two'']), Dir),
                 ((False, [''lib'', ''two'', ''__init__.py'']), File ''pass'')],
        trace = [Urlopen ''https://idx1/two/json'', Urlopen ''https://idx2/two/json'',
                 CheckCall [''/usr/bin/python3'', ''-m'', ''pip'', ''--no-input'', ''--no-color'',
                            ''--disable-pip-version-check'', ''install'', ''--upgrade'', ''--target'',
                            ''lib'', ''--index-url'', ''https://idx1'', ''--extra-index-url'',
                            ''https://idx2'', ''two'']]\<rparr>)"
proof -
  have e: "install 5 sample_env (StrList [''two'']) (Some ''lib'')
             (Some [''https://idx1'', ''https://idx2'']) lib_world
   = Some (Inr (),
       \<lparr>files = [((False, [''lib'']), Dir), ((False, [''lib'', ''two'']), Dir),
                 ((False, [''lib'', ''two'', ''__init__.py'']), File ''pass'')],
        trace = [Urlopen ''https://idx1/two/json'', Urlopen ''https://idx2/two/json'',
                 CheckCall [''/usr/bin/python3'', ''-m'', ''pip'', ''--no-input'', ''--no-color'',
                            ''--disable-pip-version-check'', ''install'', ''--upgrade'', ''--target'',
                            ''lib'', ''--index-url'', ''https://idx1'', ''--extra-index-url'',
                            ''https://idx2'', ''two'']]\<rparr>)"
    by code_simp
  show ?thesis
    by (rule trans[OF install_string_is_singleton e])
qed

end
